theory Spec2Isabelle
  imports Complex_Main "HOL-Library.Word"
begin

section \<open>Data model of \<^verbatim>\<open>cpm_converter.py\<close>\<close>

text \<open>
  The converter reads a \<^verbatim>\<open>.cpmmodel\<close> file as a Python \<^verbatim>\<open>bytes\<close> object, scans it
  for one JSON object and for PNG images, and writes a ZIP archive. Bytes are 8-bit
  words, Python \<^verbatim>\<open>str\<close> values are HOL strings, Python's unbounded integers are
  \<open>int\<close> and indices into the buffer are \<open>nat\<close>.
\<close>

type_synonym byte = "8 word"

text \<open>
  The values \<^verbatim>\<open>json.loads\<close> produces. A Python \<^verbatim>\<open>dict\<close> keeps the order of
  insertion, so an object is an association list. A float is modelled by the real
  number it denotes (only the constant \<^verbatim>\<open>1.0\<close> and the test against zero are used).
\<close>

datatype json =
    JNull
  | JBool bool
  | JInt int
  | JFloat real
  | JStr string
  | JArr "json list"
  | JObj "(string \<times> json) list"

type_synonym jobject = "(string \<times> json) list"

text \<open>Python's truth value of a JSON value (\<^verbatim>\<open>not v\<close> is its negation).\<close>

fun truthy :: "json \<Rightarrow> bool" where
  "truthy JNull = False"
| "truthy (JBool b) = b"
| "truthy (JInt n) = (n \<noteq> 0)"
| "truthy (JFloat r) = (r \<noteq> 0)"
| "truthy (JStr s) = (s \<noteq> [])"
| "truthy (JArr xs) = (xs \<noteq> [])"
| "truthy (JObj kvs) = (kvs \<noteq> [])"

text \<open>\<^verbatim>\<open>d.get(key)\<close> on a dict: \<open>None\<close> when the key is absent.\<close>

definition dict_get :: "jobject \<Rightarrow> string \<Rightarrow> json option" where
  "dict_get d k = map_of d k"

text \<open>
  The dictionaries the converter builds have a fixed set of keys, each read with
  \<^verbatim>\<open>.get(key, default)\<close>; a key that may be absent is an optional field.
\<close>

record texture =
  tex_name :: "string option"
  tex_data :: "byte list option"

record metadata =
  filename :: "string option"
  model_name :: "string option"
  file_size :: "nat option"

record model_data =
  textures :: "texture list option"
  model :: "jobject option"
  animations :: "jobject option"
  metadata :: "metadata option"

text \<open>The empty dict \<^verbatim>\<open>{}\<close> that \<^verbatim>\<open>read_cpmmodel\<close> returns from its handler.\<close>

definition empty_dict :: model_data where
  "empty_dict = \<lparr>textures = None, model = None, animations = None, metadata = None\<rparr>"

text \<open>\<^verbatim>\<open>not model_data\<close>: a dict is false exactly when it has no key.\<close>

definition dict_is_empty :: "model_data \<Rightarrow> bool" where
  "dict_is_empty md =
     (textures md = None \<and> model md = None \<and> animations md = None \<and> metadata md = None)"

text \<open>
  Exceptions that reach a handler or the caller. \<open>OSError\<close> stands for whatever
  \<^verbatim>\<open>zipfile\<close> raises when the archive cannot be opened or written; the handlers catch
  every \<^verbatim>\<open>Exception\<close>. Printing to the console is taken to succeed.
\<close>

datatype pyexc = FileNotFoundError | ValueError | OSError

text \<open>
  Standard-library calls the converter makes. They are not code of the repository, so
  they are parameters of the model:
  \<^item> \<open>path_exists\<close> is \<^verbatim>\<open>os.path.exists\<close>;
  \<^item> \<open>read_bytes\<close> is \<^verbatim>\<open>open(path, 'rb').read()\<close>, \<open>None\<close> when it raises;
  \<^item> \<open>json_loads\<close> is \<^verbatim>\<open>bytes.decode('utf-8')\<close> followed by \<^verbatim>\<open>json.loads\<close>, with the
    three outcomes of \<open>parsed\<close>. It is only applied to text that starts with an
    opening brace, where a successful parse is a dict;
  \<^item> \<open>path_basename\<close> and \<open>path_splitext\<close> are \<^verbatim>\<open>os.path.basename\<close> and the first
    component of \<^verbatim>\<open>os.path.splitext\<close>;
  \<^item> \<open>zip_ok\<close> tells whether opening the archive at a path and writing into it succeed.
\<close>

text \<open>
  The outcome of decoding and parsing a region: the parsed dict; one of the two
  exceptions that the handler of line 114 catches (\<^verbatim>\<open>UnicodeDecodeError\<close>,
  \<^verbatim>\<open>JSONDecodeError\<close>); or any other exception, which that handler lets through
  (\<^verbatim>\<open>json.loads\<close> raises a plain \<^verbatim>\<open>ValueError\<close> on an integer literal beyond the
  limit of 4300 digits and \<^verbatim>\<open>RecursionError\<close> on very deep nesting).
\<close>

datatype parsed = Parsed jobject | Decode_error | Other_error

record env =
  path_exists :: "string \<Rightarrow> bool"
  read_bytes :: "string \<Rightarrow> byte list option"
  json_loads :: "byte list \<Rightarrow> parsed"
  path_basename :: "string \<Rightarrow> string"
  path_splitext :: "string \<Rightarrow> string"
  zip_ok :: "string \<Rightarrow> bool"

section \<open>Byte-level helpers\<close>

text \<open>The slice \<^verbatim>\<open>data[a:b]\<close> for non-negative bounds: clipped at the end of the buffer.\<close>

definition slice :: "'a list \<Rightarrow> nat \<Rightarrow> nat \<Rightarrow> 'a list" where
  "slice xs a b = take (b - a) (drop a xs)"

text \<open>
  \<^verbatim>\<open>data.find(sub, start)\<close>: the lowest index at or after \<open>start\<close> where \<open>sub\<close> occurs,
  \<open>None\<close> for Python's \<open>-1\<close>.
\<close>

function bytes_find :: "byte list \<Rightarrow> byte list \<Rightarrow> nat \<Rightarrow> nat option" where
  "bytes_find xs sub start =
     (if length xs < start + length sub then None
      else if take (length sub) (drop start xs) = sub then Some start
      else bytes_find xs sub (Suc start))"
  by pat_completeness auto
termination
  by (relation "measure (\<lambda>(xs, sub, start). Suc (length xs) - start)") auto

declare bytes_find.simps [simp del]

definition png_signature :: "byte list" where
  "png_signature = [0x89, 0x50, 0x4E, 0x47, 0x0D, 0x0A, 0x1A, 0x0A]"

definition iend_marker :: "byte list" where
  "iend_marker = [0x49, 0x45, 0x4E, 0x44]"

definition lbrace :: byte where
  "lbrace = 0x7B"

definition rbrace :: byte where
  "rbrace = 0x7D"

text \<open>\<^verbatim>\<open>str(n)\<close> for a natural number, as the f-string formats the counter.\<close>

fun str_nat :: "nat \<Rightarrow> string" where
  "str_nat n =
     (if n < 10 then [char_of (48 + n)]
      else str_nat (n div 10) @ [char_of (48 + n mod 10)])"

declare str_nat.simps [simp del]

definition texture_name :: "nat \<Rightarrow> string" where
  "texture_name n = ''texture_'' @ str_nat n @ ''.png''"

section \<open>The Extractor: \<^verbatim>\<open>read_cpmmodel\<close>\<close>

text \<open>
  The inner \<^verbatim>\<open>while\<close> loop of the JSON search (lines 100 to 105): it returns the final
  \<open>(json_end, brace_count)\<close>.
\<close>

function brace_scan :: "byte list \<Rightarrow> nat \<Rightarrow> nat \<Rightarrow> nat \<times> nat" where
  "brace_scan xs json_end brace_count =
     (if json_end < length xs \<and> 0 < brace_count then
        brace_scan xs (json_end + 1)
          (if xs ! json_end = lbrace then brace_count + 1
           else if xs ! json_end = rbrace then brace_count - 1
           else brace_count)
      else (json_end, brace_count))"
  by pat_completeness auto
termination
  by (relation "measure (\<lambda>(xs, json_end, brace_count). length xs - json_end)") auto

declare brace_scan.simps [simp del]

text \<open>
  The body of the \<^verbatim>\<open>for\<close> loop at one index \<open>i\<close> (lines 94 to 113), up to the slice that
  is handed to the parser: \<open>None\<close> when the byte is not an opening brace or the counter
  does not come back to zero.
\<close>

definition candidate :: "byte list \<Rightarrow> nat \<Rightarrow> byte list option" where
  "candidate xs i =
     (if xs ! i = lbrace then
        (case brace_scan xs (i + 1) 1 of
           (json_end, brace_count) \<Rightarrow>
             if brace_count = 0 then Some (slice xs i json_end) else None)
      else None)"

text \<open>
  The \<^verbatim>\<open>for i in range(len(data) - 1)\<close> loop from index \<open>i\<close> on (lines 93 to 115). It
  ends with the first index whose candidate parses, and the parsed dict (\<open>json_start\<close>
  and \<open>model_json\<close>), or at the end of the range with nothing found. A candidate the
  parser rejects with a caught exception is the \<^verbatim>\<open>continue\<close> of the handler; any other
  exception leaves the loop and the whole \<^verbatim>\<open>try\<close> block of \<^verbatim>\<open>read_cpmmodel\<close>.
\<close>

datatype scan = Found nat jobject | Not_found | Aborted

function json_scan :: "(byte list \<Rightarrow> parsed) \<Rightarrow> byte list \<Rightarrow> nat \<Rightarrow> scan" where
  "json_scan loads xs i =
     (if int i < int (length xs) - 1 then
        (case candidate xs i of
           None \<Rightarrow> json_scan loads xs (i + 1)
         | Some json_data \<Rightarrow>
             (case loads json_data of
                Parsed model_json \<Rightarrow> Found i model_json
              | Decode_error \<Rightarrow> json_scan loads xs (i + 1)
              | Other_error \<Rightarrow> Aborted))
      else Not_found)"
  by pat_completeness auto
termination
  by (relation "measure (\<lambda>(loads, xs, i). length xs - i)") auto

declare json_scan.simps [simp del]

text \<open>
  The \<^verbatim>\<open>while True\<close> loop of the image search (lines 122 to 142), with its state
  \<open>search_start\<close>, \<open>tex_count\<close> and the list \<^verbatim>\<open>model_data['textures']\<close>.
\<close>

function png_loop :: "byte list \<Rightarrow> nat \<Rightarrow> nat \<Rightarrow> texture list \<Rightarrow> texture list" where
  "png_loop xs search_start tex_count texs =
     (case bytes_find xs png_signature search_start of
        None \<Rightarrow> texs
      | Some png_pos \<Rightarrow>
          (case bytes_find xs iend_marker png_pos of
             Some png_end \<Rightarrow>
               png_loop xs (png_pos + 1) (tex_count + 1)
                 (texs @ [\<lparr>tex_name = Some (texture_name tex_count),
                           tex_data = Some (slice xs png_pos (png_end + 8))\<rparr>])
           | None \<Rightarrow> png_loop xs (png_pos + 1) tex_count texs))"
  by pat_completeness auto
termination
proof -
  have bounds: "start \<le> p \<and> p + length sub \<le> length xs"
    if "bytes_find xs sub start = Some p" for xs sub start p
    using that
  proof (induction xs sub start rule: bytes_find.induct)
    case (1 xs sub start)
    show ?case
    proof (cases "length xs < start + length sub")
      case True
      with "1.prems" show ?thesis by (simp add: bytes_find.simps [of xs sub start])
    next
      case False
      show ?thesis
      proof (cases "take (length sub) (drop start xs) = sub")
        case True
        with False "1.prems" show ?thesis by (simp add: bytes_find.simps [of xs sub start])
      next
        case ne: False
        with False "1.prems" have "bytes_find xs sub (Suc start) = Some p"
          by (simp add: bytes_find.simps [of xs sub start])
        with "1.IH" False ne show ?thesis by fastforce
      qed
    qed
  qed
  have decr: "length xs - Suc png_pos < length xs - search_start"
    if "bytes_find xs png_signature search_start = Some png_pos"
    for xs search_start png_pos
  proof -
    have "search_start \<le> png_pos \<and> png_pos + length png_signature \<le> length xs"
      using that by (rule bounds)
    moreover have "length png_signature = 8"
      by (simp add: png_signature_def)
    ultimately show ?thesis by arith
  qed
  show ?thesis
    by (relation "measure (\<lambda>(xs, search_start, tex_count, texs). length xs - search_start)")
      (auto intro: decr)
qed

declare png_loop.simps [simp del]

text \<open>The skeleton the Extractor substitutes when no JSON was found (lines 147 to 153).\<close>

definition fallback_skeleton :: jobject where
  "fallback_skeleton =
     [(''version'', JInt 1), (''parts'', JArr []), (''animations'', JObj []),
      (''poses'', JObj []), (''scaling'', JObj [])]"

text \<open>
  Lines 117 to 167: what the \<^verbatim>\<open>try\<close> block of \<^verbatim>\<open>read_cpmmodel\<close> does after the JSON
  search, with \<open>found\<close> the value of \<^verbatim>\<open>model_data['model']\<close> at that point (the parsed
  dict, or the empty dict it was initialised with). \<^verbatim>\<open>not model_data['model']\<close> holds
  exactly for the empty dict.
\<close>

definition finish_extraction :: "env \<Rightarrow> byte list \<Rightarrow> string \<Rightarrow> jobject \<Rightarrow> model_data" where
  "finish_extraction e xs file_path found =
     (let texs = png_loop xs 0 0 [];
          model_json = (if found = [] then fallback_skeleton else found);
          fname = path_basename e file_path;
          mname = path_splitext e fname
      in \<lparr>textures = Some texs,
          model = Some model_json,
          animations = Some [],
          metadata = Some \<lparr>filename = Some fname, model_name = Some mname,
                           file_size = Some (length xs)\<rparr>\<rparr>)"

text \<open>
  The body of the \<^verbatim>\<open>try\<close> block of \<^verbatim>\<open>read_cpmmodel\<close> once the file has been read
  (lines 80 to 167): \<open>None\<close> when an exception leaves the JSON search, which happens
  before the image search has run.
\<close>

definition extract_data :: "env \<Rightarrow> byte list \<Rightarrow> string \<Rightarrow> model_data option" where
  "extract_data e xs file_path =
     (case json_scan (json_loads e) xs 0 of
        Found json_start model_json \<Rightarrow> Some (finish_extraction e xs file_path model_json)
      | Not_found \<Rightarrow> Some (finish_extraction e xs file_path [])
      | Aborted \<Rightarrow> None)"

text \<open>
  \<^verbatim>\<open>read_cpmmodel\<close>: the handler of lines 169 to 171 catches a failure to open or read
  the file as well as an exception that leaves the scan, and returns the empty dict.
\<close>

definition read_cpmmodel :: "env \<Rightarrow> string \<Rightarrow> model_data" where
  "read_cpmmodel e file_path =
     (case read_bytes e file_path of
        None \<Rightarrow> empty_dict
      | Some xs \<Rightarrow>
          (case extract_data e xs file_path of
             None \<Rightarrow> empty_dict
           | Some md \<Rightarrow> md))"

section \<open>The Packager: \<^verbatim>\<open>create_cpmproject\<close>\<close>

text \<open>
  What \<^verbatim>\<open>zipf.writestr\<close> is given for an entry: the text
  \<^verbatim>\<open>json.dumps(doc, indent=2, ensure_ascii=False)\<close> of a document, raw bytes, or a
  literal string. The archive is the list of its entries in the order they are written.
\<close>

datatype content = Dumps jobject | Blob "byte list" | Text string

type_synonym archive = "(string \<times> content) list"

text \<open>What is printed on the console (debug output, off by default, is left out).\<close>

datatype message =
    Converting string string
  | Read_failed
  | Packaging_error pyexc
  | Conversion_succeeded
  | Created_file string
  | Textures_extracted nat
  | Conversion_error pyexc

text \<open>The value a call evaluates to: \<open>None\<close> is Python's \<^verbatim>\<open>None\<close>.\<close>

type_synonym pyret = "nat option"

definition default_model :: jobject where
  "default_model =
     [(''version'', JInt 11),
      (''parts'', JArr []),
      (''scaling'', JObj
         [(''head'', JArr [JFloat 1, JFloat 1, JFloat 1]),
          (''body'', JArr [JFloat 1, JFloat 1, JFloat 1]),
          (''leftArm'', JArr [JFloat 1, JFloat 1, JFloat 1]),
          (''rightArm'', JArr [JFloat 1, JFloat 1, JFloat 1]),
          (''leftLeg'', JArr [JFloat 1, JFloat 1, JFloat 1]),
          (''rightLeg'', JArr [JFloat 1, JFloat 1, JFloat 1])]),
      (''animations'', JObj []),
      (''poses'', JObj []),
      (''root'', JArr [])]"

text \<open>Lines 180 to 187: the dict written to \<^verbatim>\<open>project.json\<close>.\<close>

definition project_info :: "model_data \<Rightarrow> jobject" where
  "project_info md =
     (let mname = (case metadata md of
                     None \<Rightarrow> ''Converted Model''
                   | Some m \<Rightarrow> (case model_name m of
                                 None \<Rightarrow> ''Converted Model'' | Some n \<Rightarrow> n));
          fname = (case metadata md of
                     None \<Rightarrow> ''.cpmmodel''
                   | Some m \<Rightarrow> (case filename m of None \<Rightarrow> ''.cpmmodel'' | Some n \<Rightarrow> n))
      in [(''version'', JStr ''0.6.0''),
          (''name'', JStr mname),
          (''description'', JStr (''Converted from '' @ fname)),
          (''author'', JStr ''CPM Converter''),
          (''exportVersion'', JStr ''1.0.0'')])"

text \<open>
  Lines 193 to 211: the document written to \<^verbatim>\<open>model.json\<close>. \<^verbatim>\<open>not model_json\<close> holds
  for the empty dict, \<^verbatim>\<open>not model_json.get('parts')\<close> when the key is absent or its
  value is false in Python's sense.
\<close>

definition packaged_model :: "model_data \<Rightarrow> jobject" where
  "packaged_model md =
     (let model_json = (case model md of None \<Rightarrow> [] | Some m \<Rightarrow> m)
      in if model_json = [] \<or>
            \<not> (case dict_get model_json ''parts'' of None \<Rightarrow> False | Some v \<Rightarrow> truthy v)
         then default_model
         else model_json)"

definition startswith :: "string \<Rightarrow> string \<Rightarrow> bool" where
  "startswith s pre = (take (length pre) s = pre)"

text \<open>
  The loop over \<^verbatim>\<open>enumerate(model_data.get('textures', []))\<close> (lines 217 to 231), with
  the index \<open>i\<close>, the entries written so far and the counter \<open>textures_added\<close>.
\<close>

fun texture_loop :: "nat \<Rightarrow> texture list \<Rightarrow> archive \<Rightarrow> nat \<Rightarrow> archive \<times> nat" where
  "texture_loop i [] zipf textures_added = (zipf, textures_added)"
| "texture_loop i (t # rest) zipf textures_added =
     (let nm = (case tex_name t of None \<Rightarrow> texture_name i | Some n \<Rightarrow> n);
          dt = (case tex_data t of None \<Rightarrow> [] | Some d \<Rightarrow> d)
      in if dt \<noteq> [] then
           texture_loop (i + 1) rest
             (zipf @ [(if \<not> startswith nm ''textures/'' then ''textures/'' @ nm else nm,
                       Blob dt)])
             (textures_added + 1)
         else texture_loop (i + 1) rest zipf textures_added)"

text \<open>The entries written when no write fails (lines 178 to 237), with the counter.\<close>

definition build_archive :: "model_data \<Rightarrow> archive \<times> nat" where
  "build_archive md =
     (let zipf = [(''project.json'', Dumps (project_info md)),
                  (''model.json'', Dumps (packaged_model md))];
          (zipf, textures_added) =
             texture_loop 0 (case textures md of None \<Rightarrow> [] | Some ts \<Rightarrow> ts) zipf 0;
          zipf = (if textures_added = 0 then zipf @ [(''textures/.keep'', Text [])] else zipf);
          zipf = zipf @ [(''animations/.keep'', Text [])]
      in (zipf, textures_added))"

definition textures_added :: "model_data \<Rightarrow> nat" where
  "textures_added md = snd (build_archive md)"

text \<open>
  \<^verbatim>\<open>create_cpmproject\<close>: the function has no \<^verbatim>\<open>return\<close> statement, so a call that
  does not raise evaluates to \<^verbatim>\<open>None\<close>. When opening or writing the archive fails,
  the handler of line 241 prints the error and raises it again; what may then be left
  on disk is not part of the result.
\<close>

record pk_result =
  pk_outcome :: "pyexc + pyret"
  pk_printed :: "message list"
  pk_archive :: "archive option"

definition create_cpmproject :: "env \<Rightarrow> model_data \<Rightarrow> string \<Rightarrow> pk_result" where
  "create_cpmproject e md output_path =
     (if zip_ok e output_path then
        \<lparr>pk_outcome = Inr None, pk_printed = [], pk_archive = Some (fst (build_archive md))\<rparr>
      else
        \<lparr>pk_outcome = Inl OSError, pk_printed = [Packaging_error OSError], pk_archive = None\<rparr>)"

section \<open>The top level: \<^verbatim>\<open>convert_cpmmodel_to_cpmproject\<close>\<close>

text \<open>\<^verbatim>\<open>str.lower\<close> on the ASCII letters, \<^verbatim>\<open>str.endswith\<close> and \<^verbatim>\<open>s.rsplit('.', 1)[0]\<close>.\<close>

definition lower_char :: "char \<Rightarrow> char" where
  "lower_char c =
     (let n = (of_char c :: nat) in if 65 \<le> n \<and> n \<le> 90 then char_of (n + 32) else c)"

definition lower :: "string \<Rightarrow> string" where
  "lower s = map lower_char s"

definition endswith :: "string \<Rightarrow> string \<Rightarrow> bool" where
  "endswith s suf = (drop (length s - length suf) s = suf)"

definition rsplit_dot_head :: "string \<Rightarrow> string" where
  "rsplit_dot_head s =
     (if CHR ''.'' \<in> set s then rev (tl (dropWhile (\<lambda>c. c \<noteq> CHR ''.'') (rev s))) else s)"

record conv_result =
  result :: "pyexc + bool"
  console :: "message list"
  written :: "(string \<times> archive) option"

definition convert_cpmmodel_to_cpmproject :: "env \<Rightarrow> string \<Rightarrow> string option \<Rightarrow> conv_result" where
  "convert_cpmmodel_to_cpmproject e input_path output_path =
     (if \<not> path_exists e input_path then
        \<lparr>result = Inl FileNotFoundError, console = [], written = None\<rparr>
      else if \<not> endswith (lower input_path) ''.cpmmodel'' then
        \<lparr>result = Inl ValueError, console = [], written = None\<rparr>
      else
        (let out = (case output_path of
                      None \<Rightarrow> rsplit_dot_head input_path @ ''.cpmproject''
                    | Some p \<Rightarrow> p);
             md = read_cpmmodel e input_path
         in if dict_is_empty md then
              \<lparr>result = Inr False,
               console = [Converting input_path out, Read_failed],
               written = None\<rparr>
            else
              (let pk = create_cpmproject e md out
               in case pk_outcome pk of
                    Inl ex \<Rightarrow>
                      \<lparr>result = Inr False,
                       console = Converting input_path out # pk_printed pk @ [Conversion_error ex],
                       written = None\<rparr>
                  | Inr v \<Rightarrow>
                      \<lparr>result = Inr True,
                       console = Converting input_path out # pk_printed pk @
                         [Conversion_succeeded, Created_file out,
                          Textures_extracted
                            (length (case textures md of None \<Rightarrow> [] | Some ts \<Rightarrow> ts))],
                       written = (case pk_archive pk of
                                    None \<Rightarrow> None | Some a \<Rightarrow> Some (out, a))\<rparr>)))"

section \<open>Notions the properties are stated with\<close>

subsection \<open>Occurrences of a byte pattern and the images of a buffer\<close>

text \<open>The pattern \<open>sub\<close> occurs in \<open>xs\<close> at position \<open>p\<close>.\<close>

definition occurs_at :: "byte list \<Rightarrow> byte list \<Rightarrow> nat \<Rightarrow> bool" where
  "occurs_at xs sub p = (p + length sub \<le> length xs \<and> take (length sub) (drop p xs) = sub)"

text \<open>The positions from \<open>s\<close> on where the PNG signature occurs, in ascending order.\<close>

definition sig_positions :: "byte list \<Rightarrow> nat \<Rightarrow> nat list" where
  "sig_positions xs s = filter (occurs_at xs png_signature) [s..<length xs]"

text \<open>\<open>e\<close> is the position of the first \<^verbatim>\<open>IEND\<close> marker at or after \<open>p\<close>.\<close>

definition first_iend :: "byte list \<Rightarrow> nat \<Rightarrow> nat \<Rightarrow> bool" where
  "first_iend xs p e =
     (p \<le> e \<and> occurs_at xs iend_marker e \<and> (\<forall>q\<in>set [p..<e]. \<not> occurs_at xs iend_marker q))"

text \<open>
  The pairs \<open>(p, e)\<close> of a signature position at or after \<open>s\<close> and the position of the
  first \<^verbatim>\<open>IEND\<close> marker at or after it, for the signatures that have one.
\<close>

definition png_images :: "byte list \<Rightarrow> nat \<Rightarrow> (nat \<times> nat) list" where
  "png_images xs s =
     concat (map (\<lambda>p. case bytes_find xs iend_marker p of None \<Rightarrow> [] | Some e \<Rightarrow> [(p, e)])
       (sig_positions xs s))"

text \<open>
  The textures recorded for a list of such pairs, named by a counter that starts at \<open>c\<close>:
  each is the slice \<^verbatim>\<open>data[p:e+8]\<close>.
\<close>

definition named_from :: "byte list \<Rightarrow> nat \<Rightarrow> (nat \<times> nat) list \<Rightarrow> texture list" where
  "named_from xs c imgs =
     map (\<lambda>(k, (p, e)). \<lparr>tex_name = Some (texture_name k), tex_data = Some (slice xs p (e + 8))\<rparr>)
       (enumerate c imgs)"

text \<open>
  A buffer holds the well-formed, non-overlapping images \<open>imgs\<close>: the signature occurs
  exactly at their starts, each start \<open>p\<close> has its first \<^verbatim>\<open>IEND\<close> marker at \<open>e\<close> with
  the four bytes of the checksum after it inside the buffer, and the next image starts
  after that checksum.
\<close>

definition well_formed_pngs :: "byte list \<Rightarrow> (nat \<times> nat) list \<Rightarrow> bool" where
  "well_formed_pngs xs imgs =
     (sig_positions xs 0 = map fst imgs \<and>
      list_all (\<lambda>(p, e). first_iend xs p e \<and> e + 8 \<le> length xs) imgs \<and>
      sorted_wrt (\<lambda>(p, e) (p', e'). e + 8 \<le> p') imgs)"

text \<open>A byte string ends with the \<^verbatim>\<open>IEND\<close> marker followed by four more bytes.\<close>

definition ends_with_checksum :: "byte list \<Rightarrow> bool" where
  "ends_with_checksum d = (8 \<le> length d \<and> take 4 (drop (length d - 8) d) = iend_marker)"

subsection \<open>Sample buffers\<close>

text \<open>Two images back to back, the first with two bytes of payload.\<close>

definition two_pngs :: "byte list" where
  "two_pngs = png_signature @ [1, 2] @ iend_marker @ [0xAA, 0xBB, 0xCC, 0xDD]
            @ png_signature @ iend_marker @ [1, 1, 1, 1]"

text \<open>A signature and a marker with the buffer ending right after the marker.\<close>

definition cut_png :: "byte list" where
  "cut_png = png_signature @ iend_marker"

subsection \<open>Balanced objects and the first region that parses\<close>

text \<open>
  The nesting depth the brace counter computes over a byte string: every opening brace
  counts \<open>+1\<close> and every closing brace \<open>-1\<close>, inside string literals as well.
\<close>

fun depth :: "byte list \<Rightarrow> int" where
  "depth [] = 0"
| "depth (b # bs) = (if b = lbrace then 1 else if b = rbrace then - 1 else 0) + depth bs"

text \<open>
  A byte range with balanced braces: it opens with a brace, the depth is positive on
  every proper prefix and zero at the end. A JSON object whose string literals hold no
  brace byte is of this kind, the depth being its structural nesting.
\<close>

definition balanced_object :: "byte list \<Rightarrow> bool" where
  "balanced_object obj =
     (obj \<noteq> [] \<and> hd obj = lbrace \<and> depth obj = 0 \<and>
      (\<forall>k\<in>set [1..<length obj]. 0 < depth (take k obj)))"

text \<open>
  The start position \<open>i\<close> is passed over: the byte is not an opening brace, the counter
  does not come back to zero, or decoding or parsing the region fails with one of the
  two exceptions the search catches.
\<close>

definition rejected :: "(byte list \<Rightarrow> parsed) \<Rightarrow> byte list \<Rightarrow> nat \<Rightarrow> bool" where
  "rejected loads xs i =
     (case candidate xs i of None \<Rightarrow> True | Some r \<Rightarrow> loads r = Decode_error)"

text \<open>
  The start position \<open>i\<close> yields no parsed value: it is passed over, or the parser
  raises some other exception on its region.
\<close>

definition no_value :: "(byte list \<Rightarrow> parsed) \<Rightarrow> byte list \<Rightarrow> nat \<Rightarrow> bool" where
  "no_value loads xs i =
     (case candidate xs i of
        None \<Rightarrow> True
      | Some r \<Rightarrow> (case loads r of Parsed v \<Rightarrow> False | Decode_error \<Rightarrow> True | Other_error \<Rightarrow> True))"

text \<open>
  \<open>i\<close> is a start position the loop visits whose region parses to \<open>v\<close>, and every
  earlier start position is passed over.
\<close>

definition first_parse :: "(byte list \<Rightarrow> parsed) \<Rightarrow> byte list \<Rightarrow> nat \<Rightarrow> jobject \<Rightarrow> bool" where
  "first_parse loads xs i v =
     (int i < int (length xs) - 1 \<and>
      (case candidate xs i of None \<Rightarrow> False | Some r \<Rightarrow> loads r = Parsed v) \<and>
      (\<forall>i'\<in>set [0..<i]. rejected loads xs i'))"

text \<open>
  The same with the claim's weaker condition on the earlier start positions: none of
  them yields a parsed value.
\<close>

definition first_value :: "(byte list \<Rightarrow> parsed) \<Rightarrow> byte list \<Rightarrow> nat \<Rightarrow> jobject \<Rightarrow> bool" where
  "first_value loads xs i v =
     (int i < int (length xs) - 1 \<and>
      (case candidate xs i of None \<Rightarrow> False | Some r \<Rightarrow> loads r = Parsed v) \<and>
      (\<forall>i'\<in>set [0..<i]. no_value loads xs i'))"

subsection \<open>A sample environment\<close>

text \<open>The text \<^verbatim>\<open>{}\<close> and the text \<^verbatim>\<open>{"parts":[1]}\<close>, as bytes.\<close>

definition braces :: "byte list" where
  "braces = [0x7B, 0x7D]"

definition parts_doc :: "byte list" where
  "parts_doc = [0x7B, 0x22, 0x70, 0x61, 0x72, 0x74, 0x73, 0x22, 0x3A, 0x5B, 0x31, 0x5D, 0x7D]"

text \<open>
  Binary noise with neither a document nor an image: it holds the region \<^verbatim>\<open>{\x00}\<close>,
  which no JSON parser accepts.
\<close>

definition noise :: "byte list" where
  "noise = [0x01, 0x7B, 0x00, 0x7D, 0xFF]"

text \<open>The noise, then the document \<^verbatim>\<open>{"parts":[1]}\<close>, then two more bytes.\<close>

definition noisy_doc :: "byte list" where
  "noisy_doc = noise @ parts_doc @ [0x00, 0x02]"

text \<open>
  The region \<^verbatim>\<open>{"n":<4301 digits 1> !}\<close>: not a JSON text, and \<^verbatim>\<open>json.loads\<close> raises
  \<^verbatim>\<open>ValueError\<close> on it, for the integer is converted before the stray characters are
  reached and it exceeds the limit of 4300 digits.
\<close>

definition big_bad :: "byte list" where
  "big_bad = [0x7B, 0x22, 0x6E, 0x22, 0x3A] @ replicate 4301 0x31 @ [0x20, 0x21, 0x7D]"

text \<open>
  That region followed by a document, by the empty object, and preceded by an image
  (a signature, the marker and four bytes).
\<close>

definition bignum_then_doc :: "byte list" where
  "bignum_then_doc = big_bad @ parts_doc"

definition bignum_then_braces :: "byte list" where
  "bignum_then_braces = big_bad @ braces"

definition one_png :: "byte list" where
  "one_png =
     [0x89, 0x50, 0x4E, 0x47, 0x0D, 0x0A, 0x1A, 0x0A, 0x49, 0x45, 0x4E, 0x44,
      0xAA, 0xBB, 0xCC, 0xDD]"

definition png_then_bignum :: "byte list" where
  "png_then_bignum = one_png @ big_bad"

text \<open>
  A stand-in for decoding and parsing on the sample buffers. It gives what
  \<^verbatim>\<open>json.loads\<close> gives on the two texts above; a region of more than 4300 bytes stands
  for the region with the long integer, the only one of that size in the sample
  buffers; every other region is rejected as a \<^verbatim>\<open>JSONDecodeError\<close>. This is right for
  every region the search hands to the parser on these buffers.
\<close>

definition sample_loads :: "byte list \<Rightarrow> parsed" where
  "sample_loads bs =
     (if 4300 < length bs then Other_error
      else if bs = braces then Parsed []
      else if bs = parts_doc then Parsed [(''parts'', JArr [JInt 1])]
      else Decode_error)"

text \<open>
  A file system with a few files. The sample paths have no directory part and a single
  dot, where \<^verbatim>\<open>os.path.basename\<close> is the identity and \<^verbatim>\<open>os.path.splitext\<close> cuts at
  the dot. Writing an archive fails under the directory \<^verbatim>\<open>ro\<close>.
\<close>

definition sample_files :: "string \<Rightarrow> byte list option option" where
  "sample_files p =
     (if p = ''empty.cpmmodel'' then Some (Some [])
      else if p = ''braces.cpmmodel'' then Some (Some braces)
      else if p = ''noise.cpmmodel'' then Some (Some noise)
      else if p = ''noisy.cpmmodel'' then Some (Some noisy_doc)
      else if p = ''two.cpmmodel'' then Some (Some two_pngs)
      else if p = ''locked.cpmmodel'' then Some None
      else if p = ''notes.txt'' then Some (Some [])
      else if p = ''bignum.cpmmodel'' then Some (Some big_bad)
      else if p = ''bignum_doc.cpmmodel'' then Some (Some bignum_then_doc)
      else if p = ''bignum_braces.cpmmodel'' then Some (Some bignum_then_braces)
      else if p = ''png_bignum.cpmmodel'' then Some (Some png_then_bignum)
      else None)"

definition sample_env :: env where
  "sample_env =
     \<lparr>path_exists = (\<lambda>p. sample_files p \<noteq> None),
      read_bytes = (\<lambda>p. case sample_files p of None \<Rightarrow> None | Some c \<Rightarrow> c),
      json_loads = sample_loads,
      path_basename = (\<lambda>p. p),
      path_splitext = takeWhile (\<lambda>c. c \<noteq> CHR ''.''),
      zip_ok = (\<lambda>out. take 3 out \<noteq> ''ro/'')\<rparr>"

subsection \<open>Entries of an archive\<close>

text \<open>The entries of an archive that lie under \<^verbatim>\<open>textures/\<close>.\<close>

definition texture_entries :: "archive \<Rightarrow> archive" where
  "texture_entries a = filter (\<lambda>(path, c). startswith path ''textures/'') a"

text \<open>The path the archive is written to (lines 255 and 256).\<close>

definition output_of :: "string \<Rightarrow> string option \<Rightarrow> string" where
  "output_of input_path output_path =
     (case output_path of
        None \<Rightarrow> rsplit_dot_head input_path @ ''.cpmproject''
      | Some p \<Rightarrow> p)"

text \<open>The input passes the two checks at the head of the conversion (lines 249 to 253).\<close>

definition accepted_input :: "env \<Rightarrow> string \<Rightarrow> bool" where
  "accepted_input e input_path =
     (path_exists e input_path \<and> endswith (lower input_path) ''.cpmmodel'')"

text \<open>The contents written to an archive under a given path, in order.\<close>

definition entries_at :: "archive \<Rightarrow> string \<Rightarrow> content list" where
  "entries_at a path = map snd (filter (\<lambda>(p, c). p = path) a)"

text \<open>The list of textures of an extraction result, as \<^verbatim>\<open>.get('textures', [])\<close> reads it.\<close>

definition textures_of :: "model_data \<Rightarrow> texture list" where
  "textures_of md = (case textures md of None \<Rightarrow> [] | Some ts \<Rightarrow> ts)"

text \<open>
  The contents the Packager wrote under a path, and the contents a conversion wrote
  under a path; \<open>None\<close> when no archive was written.
\<close>

definition packaged_entries :: "pk_result \<Rightarrow> string \<Rightarrow> content list option" where
  "packaged_entries r path = map_option (\<lambda>a. entries_at a path) (pk_archive r)"

definition written_entries :: "conv_result \<Rightarrow> string \<Rightarrow> content list option" where
  "written_entries r path = map_option (\<lambda>(out, a). entries_at a path) (written r)"

text \<open>
  A buffer holds no image: no occurrence of the signature has an \<^verbatim>\<open>IEND\<close> marker at or
  after it.
\<close>

definition no_image :: "byte list \<Rightarrow> bool" where
  "no_image xs =
     (\<forall>p\<in>set [0..<length xs]. \<forall>m\<in>set [p..<length xs].
        \<not> (occurs_at xs png_signature p \<and> occurs_at xs iend_marker m))"

section \<open>The image search\<close>

lemma length_png_signature: "length png_signature = 8"
  by (simp add: png_signature_def)

lemma length_iend_marker: "length iend_marker = 4"
  by (simp add: iend_marker_def)

lemma bytes_find_None_iff:
  "bytes_find xs sub s = None \<longleftrightarrow> (\<forall>q\<ge>s. \<not> occurs_at xs sub q)"
proof (induction xs sub s rule: bytes_find.induct)
  case (1 xs sub start)
  show ?case
  proof (cases "length xs < start + length sub")
    case True
    then show ?thesis
      by (simp add: bytes_find.simps [of xs sub start] occurs_at_def)
  next
    case False
    show ?thesis
    proof (cases "take (length sub) (drop start xs) = sub")
      case True
      with False have "occurs_at xs sub start" by (simp add: occurs_at_def)
      with False True show ?thesis
        by (auto simp: bytes_find.simps [of xs sub start])
    next
      case ne: False
      then have no: "\<not> occurs_at xs sub start" by (simp add: occurs_at_def)
      have "bytes_find xs sub start = bytes_find xs sub (Suc start)"
        using False ne by (simp add: bytes_find.simps [of xs sub start])
      also have "\<dots> = None \<longleftrightarrow> (\<forall>q\<ge>Suc start. \<not> occurs_at xs sub q)"
        using "1.IH" False ne by simp
      also have "\<dots> \<longleftrightarrow> (\<forall>q\<ge>start. \<not> occurs_at xs sub q)"
        using no by (metis Suc_leD Suc_leI le_neq_implies_less)
      finally show ?thesis .
    qed
  qed
qed

lemma bytes_find_Some_iff:
  "bytes_find xs sub s = Some p \<longleftrightarrow>
     s \<le> p \<and> occurs_at xs sub p \<and> (\<forall>q. s \<le> q \<and> q < p \<longrightarrow> \<not> occurs_at xs sub q)"
proof (induction xs sub s rule: bytes_find.induct)
  case (1 xs sub start)
  show ?case
  proof (cases "length xs < start + length sub")
    case True
    then show ?thesis
      by (auto simp: bytes_find.simps [of xs sub start] occurs_at_def)
  next
    case False
    show ?thesis
    proof (cases "take (length sub) (drop start xs) = sub")
      case True
      with False have occ: "occurs_at xs sub start" by (simp add: occurs_at_def)
      have "bytes_find xs sub start = Some start"
        using False True by (simp add: bytes_find.simps [of xs sub start])
      moreover have "start \<le> p \<and> occurs_at xs sub p \<and>
          (\<forall>q. start \<le> q \<and> q < p \<longrightarrow> \<not> occurs_at xs sub q) \<longleftrightarrow> p = start"
        using occ by (metis le_neq_implies_less order_refl not_less_iff_gr_or_eq)
      ultimately show ?thesis by auto
    next
      case ne: False
      then have no: "\<not> occurs_at xs sub start" by (simp add: occurs_at_def)
      have "bytes_find xs sub start = bytes_find xs sub (Suc start)"
        using False ne by (simp add: bytes_find.simps [of xs sub start])
      moreover have "bytes_find xs sub (Suc start) = Some p \<longleftrightarrow>
          Suc start \<le> p \<and> occurs_at xs sub p \<and>
          (\<forall>q. Suc start \<le> q \<and> q < p \<longrightarrow> \<not> occurs_at xs sub q)"
        using "1.IH" False ne by simp
      moreover have "(Suc start \<le> p \<and> occurs_at xs sub p \<and>
          (\<forall>q. Suc start \<le> q \<and> q < p \<longrightarrow> \<not> occurs_at xs sub q)) \<longleftrightarrow>
          (start \<le> p \<and> occurs_at xs sub p \<and>
          (\<forall>q. start \<le> q \<and> q < p \<longrightarrow> \<not> occurs_at xs sub q))"
        using no by (metis Suc_leD Suc_leI le_neq_implies_less)
      ultimately show ?thesis by simp
    qed
  qed
qed

lemma sig_positions_None:
  assumes "bytes_find xs png_signature s = None"
  shows "sig_positions xs s = []"
  using assms by (auto simp: sig_positions_def bytes_find_None_iff filter_empty_conv)

lemma sig_positions_Some:
  assumes "bytes_find xs png_signature s = Some p"
  shows "sig_positions xs s = p # sig_positions xs (Suc p)"
proof -
  from assms have sp: "s \<le> p" and occ: "occurs_at xs png_signature p"
    and no: "\<forall>q. s \<le> q \<and> q < p \<longrightarrow> \<not> occurs_at xs png_signature q"
    by (simp_all add: bytes_find_Some_iff)
  from occ have "p < length xs" by (simp add: occurs_at_def png_signature_def)
  with sp have "[s..<length xs] = [s..<p] @ p # [Suc p..<length xs]"
    by (metis le_add_diff_inverse less_imp_le_nat upt_add_eq_append upt_conv_Cons)
  moreover have "filter (occurs_at xs png_signature) [s..<p] = []"
    using no by (auto simp: filter_empty_conv)
  ultimately show ?thesis using occ by (simp add: sig_positions_def)
qed

lemma png_loop_char:
  "png_loop xs s c texs = texs @ named_from xs c (png_images xs s)"
proof (induction xs s c texs rule: png_loop.induct)
  case (1 xs s c texs)
  show ?case
  proof (cases "bytes_find xs png_signature s")
    case None
    then show ?thesis
      by (simp add: png_loop.simps [of xs s c texs] sig_positions_None png_images_def
          named_from_def)
  next
    case (Some p)
    note sp = sig_positions_Some [OF Some]
    show ?thesis
    proof (cases "bytes_find xs iend_marker p")
      case None
      have "png_loop xs s c texs = png_loop xs (p + 1) c texs"
        using Some None by (simp add: png_loop.simps [of xs s c texs])
      also have "\<dots> = texs @ named_from xs c (png_images xs (p + 1))"
        using "1.IH"(1) [OF Some None] .
      also have "png_images xs (p + 1) = png_images xs s"
        using None by (simp add: png_images_def sp)
      finally show ?thesis .
    next
      case e: (Some pe)
      let ?t = "\<lparr>tex_name = Some (texture_name c), tex_data = Some (slice xs p (pe + 8))\<rparr>"
      have "png_loop xs s c texs = png_loop xs (p + 1) (c + 1) (texs @ [?t])"
        using Some e by (simp add: png_loop.simps [of xs s c texs])
      also have "\<dots> = (texs @ [?t]) @ named_from xs (c + 1) (png_images xs (p + 1))"
        using "1.IH"(2) [OF Some e] .
      also have "\<dots> = texs @ named_from xs c ((p, pe) # png_images xs (p + 1))"
        by (simp add: named_from_def)
      also have "(p, pe) # png_images xs (p + 1) = png_images xs s"
        using e by (simp add: png_images_def sp)
      finally show ?thesis .
    qed
  qed
qed

lemma first_iend_iff: "first_iend xs p e \<longleftrightarrow> bytes_find xs iend_marker p = Some e"
  by (auto simp: first_iend_def bytes_find_Some_iff)

lemma png_images_mem:
  "(p, e) \<in> set (png_images xs s) \<longleftrightarrow>
     s \<le> p \<and> occurs_at xs png_signature p \<and> bytes_find xs iend_marker p = Some e"
  by (auto simp: png_images_def sig_positions_def occurs_at_def
      png_signature_def split: option.splits)

lemma starts_of_images:
  "map fst (concat (map (\<lambda>p. case bytes_find xs iend_marker p of
                            None \<Rightarrow> [] | Some e \<Rightarrow> [(p, e)]) ps)) =
     filter (\<lambda>p. bytes_find xs iend_marker p \<noteq> None) ps"
  by (induction ps) (auto split: option.splits)

lemma png_images_starts:
  "map fst (png_images xs s) =
     filter (\<lambda>p. bytes_find xs iend_marker p \<noteq> None) (sig_positions xs s)"
  by (simp add: png_images_def starts_of_images)

lemma png_images_sorted: "sorted_wrt (<) (map fst (png_images xs s))"
  unfolding png_images_starts sig_positions_def
  by (intro sorted_wrt_filter) simp

lemma png_images_distinct: "distinct (map fst (png_images xs s))"
  unfolding png_images_starts sig_positions_def by simp

lemma nth_of_occurrence:
  assumes "occurs_at xs sub p" "k < length sub"
  shows "xs ! (p + k) = sub ! k"
proof -
  from assms have eq: "take (length sub) (drop p xs) = sub" and le: "p + length sub \<le> length xs"
    by (simp_all add: occurs_at_def)
  have "take (length sub) (drop p xs) ! k = xs ! (p + k)"
    using assms(2) le by simp
  with eq show ?thesis by simp
qed

lemma sig_no_iend:
  assumes sg: "occurs_at xs png_signature p" and ie: "occurs_at xs iend_marker e" and pe: "p \<le> e"
  shows "p + 8 \<le> e"
proof (rule ccontr)
  assume "\<not> p + 8 \<le> e"
  with pe obtain k where k: "e = p + k" "k < 8"
    by (metis le_Suc_ex nat_add_left_cancel_less not_le_imp_less)
  have "xs ! e = iend_marker ! 0"
    using nth_of_occurrence [OF ie, of 0] by (simp add: iend_marker_def)
  moreover have "xs ! e = png_signature ! k"
    using nth_of_occurrence [OF sg, of k] k by (simp add: png_signature_def)
  ultimately have "png_signature ! k = (0x49 :: byte)"
    by (simp add: iend_marker_def)
  moreover from k have "k \<in> {0, 1, 2, 3, 4, 5, 6, 7}" by auto
  ultimately show False
    by (auto simp: png_signature_def)
qed

lemma slice_starts_with_signature:
  assumes "occurs_at xs png_signature p" "p \<le> e"
  shows "take 8 (slice xs p (e + 8)) = png_signature"
proof -
  have "take 8 (slice xs p (e + 8)) = take 8 (drop p xs)"
    using assms(2) by (simp add: slice_def min_def)
  also have "\<dots> = png_signature"
    using assms(1) unfolding occurs_at_def length_png_signature by simp
  finally show ?thesis .
qed

lemma length_slice: "length (slice xs a b) = min b (length xs) - a"
  by (simp add: slice_def)

lemma slice_ends_with_checksum:
  assumes "occurs_at xs iend_marker e" "p \<le> e" "e + 8 \<le> length xs"
  shows "ends_with_checksum (slice xs p (e + 8))"
proof -
  have len: "length (slice xs p (e + 8)) = e + 8 - p"
    using assms by (simp add: length_slice)
  have "drop (e + 8 - p - 8) (slice xs p (e + 8)) = take 8 (drop e xs)"
    using assms(2) by (simp add: slice_def drop_take)
  then have "take 4 (drop (length (slice xs p (e + 8)) - 8) (slice xs p (e + 8))) = take 4 (drop e xs)"
    by (simp add: len)
  also have "\<dots> = iend_marker"
    using assms(1) unfolding occurs_at_def length_iend_marker by simp
  finally show ?thesis
    using len assms(2) by (simp add: ends_with_checksum_def)
qed

lemma png_loop_skip:
  assumes "bytes_find xs png_signature s = Some p" "bytes_find xs iend_marker p = None"
  shows "png_loop xs s c texs = png_loop xs (p + 1) c texs"
  using assms by (simp add: png_loop.simps [of xs s c texs])

lemma png_images_two_pngs: "png_images two_pngs 0 = [(0, 10), (18, 26)]"
  by code_simp

lemma texture_name_0: "texture_name 0 = ''texture_0.png''"
  by code_simp

lemma texture_name_1: "texture_name (Suc 0) = ''texture_1.png''"
  by code_simp

text \<open>
  Claim C5, as stated, fails on a buffer that ends less than four bytes after an
  \<^verbatim>\<open>IEND\<close> marker: for a signature directly followed by the marker and nothing else,
  the recorded texture is the whole buffer of 12 bytes, which does not end with the
  marker and a four-byte checksum.
\<close>

theorem truncated_checksum_counterexample:
  "png_loop cut_png 0 0 [] = [\<lparr>tex_name = Some ''texture_0.png'', tex_data = Some cut_png\<rparr>]
   \<and> \<not> ends_with_checksum cut_png"
  by code_simp

text \<open>
  Claim C5, amended. For every buffer, the textures recorded are, in order, the slices
  \<^verbatim>\<open>data[p:e+8]\<close> for the signature positions \<open>p\<close> that have a first \<^verbatim>\<open>IEND\<close> marker
  \<open>e\<close> at or after them: each begins with the exact 8-byte signature and ends 8 bytes
  after the start of that marker, or at the end of the buffer when fewer than four
  bytes follow the marker (when the four bytes are there, the texture ends with the
  marker and its checksum). The start positions are strictly ascending, hence never
  shared. A signature with no \<^verbatim>\<open>IEND\<close> after it yields no texture, and the search goes
  on one byte past the start of that signature with the counter and the list unchanged.
\<close>

theorem textures_are_png_ranges:
  "png_loop xs 0 0 [] = named_from xs 0 (png_images xs 0)
   \<and> (\<forall>(p, e) \<in> set (png_images xs 0).
         occurs_at xs png_signature p \<and> first_iend xs p e
         \<and> take 8 (slice xs p (e + 8)) = png_signature
         \<and> length (slice xs p (e + 8)) = min (e + 8) (length xs) - p
         \<and> (e + 8 \<le> length xs \<longrightarrow> ends_with_checksum (slice xs p (e + 8))))
   \<and> sorted_wrt (<) (map fst (png_images xs 0))
   \<and> distinct (map fst (png_images xs 0))
   \<and> (\<forall>p. occurs_at xs png_signature p \<and> bytes_find xs iend_marker p = None
         \<longrightarrow> p \<notin> set (map fst (png_images xs 0)))
   \<and> (\<forall>s p c texs. bytes_find xs png_signature s = Some p \<and> bytes_find xs iend_marker p = None
         \<longrightarrow> png_loop xs s c texs = png_loop xs (p + 1) c texs)"
proof (intro conjI)
  show "png_loop xs 0 0 [] = named_from xs 0 (png_images xs 0)"
    by (simp add: png_loop_char)
  show "\<forall>(p, e) \<in> set (png_images xs 0).
         occurs_at xs png_signature p \<and> first_iend xs p e
         \<and> take 8 (slice xs p (e + 8)) = png_signature
         \<and> length (slice xs p (e + 8)) = min (e + 8) (length xs) - p
         \<and> (e + 8 \<le> length xs \<longrightarrow> ends_with_checksum (slice xs p (e + 8)))"
  proof (clarify, intro conjI impI)
    fix p e
    assume "(p, e) \<in> set (png_images xs 0)"
    then have occ: "occurs_at xs png_signature p" and fi: "first_iend xs p e"
      by (simp_all add: png_images_mem first_iend_iff)
    from fi have pe: "p \<le> e" and ie: "occurs_at xs iend_marker e"
      by (simp_all add: first_iend_def)
    show "occurs_at xs png_signature p" by (rule occ)
    show "first_iend xs p e" by (rule fi)
    show "take 8 (slice xs p (e + 8)) = png_signature"
      by (rule slice_starts_with_signature [OF occ pe])
    show "length (slice xs p (e + 8)) = min (e + 8) (length xs) - p"
      by (rule length_slice)
    show "ends_with_checksum (slice xs p (e + 8))" if "e + 8 \<le> length xs"
      by (rule slice_ends_with_checksum [OF ie pe that])
  qed
  show "sorted_wrt (<) (map fst (png_images xs 0))"
    by (rule png_images_sorted)
  show "distinct (map fst (png_images xs 0))"
    by (rule png_images_distinct)
  show "\<forall>p. occurs_at xs png_signature p \<and> bytes_find xs iend_marker p = None
         \<longrightarrow> p \<notin> set (map fst (png_images xs 0))"
    by (auto simp: png_images_mem)
  show "\<forall>s p c texs. bytes_find xs png_signature s = Some p \<and> bytes_find xs iend_marker p = None
         \<longrightarrow> png_loop xs s c texs = png_loop xs (p + 1) c texs"
    by (simp add: png_loop_skip)
qed

theorem textures_are_png_ranges_witness:
  "png_images two_pngs 0 = [(0, 10), (18, 26)]
   \<and> png_loop two_pngs 0 0 [] = named_from two_pngs 0 [(0, 10), (18, 26)]
   \<and> ends_with_checksum (slice two_pngs 0 18)
   \<and> ends_with_checksum (slice two_pngs 18 34)
   \<and> bytes_find png_signature png_signature 0 = Some 0
   \<and> bytes_find png_signature iend_marker 0 = None
   \<and> png_loop png_signature 0 0 [] = png_loop png_signature 1 0 []"
proof -
  have len: "length two_pngs = 34"
    by (simp add: two_pngs_def png_signature_def iend_marker_def)
  have f1: "bytes_find png_signature png_signature 0 = Some 0"
    by code_simp
  have f2: "bytes_find png_signature iend_marker 0 = None"
    by code_simp
  have a: "png_loop two_pngs 0 0 [] = named_from two_pngs 0 [(0, 10), (18, 26)]
      \<and> ends_with_checksum (slice two_pngs 0 18)
      \<and> ends_with_checksum (slice two_pngs 18 34)"
    using textures_are_png_ranges [of two_pngs]
    by (simp add: png_images_two_pngs len)
  have "\<forall>s p c texs. bytes_find png_signature png_signature s = Some p
          \<and> bytes_find png_signature iend_marker p = None
        \<longrightarrow> png_loop png_signature s c texs = png_loop png_signature (p + 1) c texs"
    using textures_are_png_ranges [of png_signature] by blast
  with f1 f2 have b: "png_loop png_signature 0 0 [] = png_loop png_signature 1 0 []"
    by fastforce
  show ?thesis
    using a b f1 f2 by (simp add: png_images_two_pngs)
qed

section \<open>The JSON search\<close>

lemma slice_Cons:
  assumes "a < b" "a < length xs"
  shows "slice xs a b = xs ! a # slice xs (Suc a) b"
proof -
  from assms(2) have "drop a xs = xs ! a # drop (Suc a) xs"
    by (simp add: Cons_nth_drop_Suc)
  moreover from assms(1) have "b - a = Suc (b - Suc a)"
    by simp
  ultimately show ?thesis
    by (simp add: slice_def)
qed

lemma slice_same: "slice xs a a = []"
  by (simp add: slice_def)

text \<open>
  The invariant of the brace counter: started at \<open>json_end\<close> with count \<open>c\<close>, it stops at
  the first position \<open>j\<close> where the count plus the depth of the bytes read is zero.
\<close>

lemma brace_scan_stops:
  assumes "json_end \<le> j" "j \<le> length xs"
    and "\<forall>k. json_end \<le> k \<and> k < j \<longrightarrow> 0 < int c + depth (slice xs json_end k)"
    and "int c + depth (slice xs json_end j) = 0"
  shows "brace_scan xs json_end c = (j, 0)"
  using assms
proof (induction xs json_end c rule: brace_scan.induct)
  case (1 xs json_end c)
  show ?case
  proof (cases "json_end = j")
    case True
    with "1.prems"(4) have "c = 0"
      by (simp add: slice_same)
    with True show ?thesis
      by (simp add: brace_scan.simps [of xs j 0])
  next
    case False
    with "1.prems"(1) have lt: "json_end < j" by simp
    with "1.prems"(2) have inb: "json_end < length xs" by simp
    from "1.prems"(3) lt have pos: "0 < c"
      by (auto simp: slice_same dest: spec [of _ json_end])
    let ?c' = "if xs ! json_end = lbrace then c + 1
               else if xs ! json_end = rbrace then c - 1 else c"
    have step: "int c + depth (slice xs json_end k) = int ?c' + depth (slice xs (json_end + 1) k)"
      if "json_end < k" for k
      using that inb pos by (simp add: slice_Cons [of json_end k xs] lbrace_def rbrace_def)
    have "brace_scan xs (json_end + 1) ?c' = (j, 0)"
    proof (rule "1.IH")
      show "json_end < length xs \<and> 0 < c" using inb pos by simp
      show "json_end + 1 \<le> j" using lt by simp
      show "j \<le> length xs" by (rule "1.prems"(2))
      show "\<forall>k. json_end + 1 \<le> k \<and> k < j \<longrightarrow> 0 < int ?c' + depth (slice xs (json_end + 1) k)"
      proof (intro allI impI)
        fix k assume k: "json_end + 1 \<le> k \<and> k < j"
        then have "0 < int c + depth (slice xs json_end k)"
          using "1.prems"(3) by simp
        with step [of k] k show "0 < int ?c' + depth (slice xs (json_end + 1) k)"
          by simp
      qed
      show "int ?c' + depth (slice xs (json_end + 1) j) = 0"
        using step [of j] lt "1.prems"(4) by simp
    qed
    with inb pos show ?thesis
      by (simp add: brace_scan.simps [of xs json_end c])
  qed
qed

lemma balanced_object_length: "balanced_object obj \<Longrightarrow> 2 \<le> length obj"
  by (cases obj; cases "tl obj") (auto simp: balanced_object_def lbrace_def rbrace_def)

lemma slice_of_occurrence:
  assumes "occurs_at xs obj i" "k \<le> i + length obj"
  shows "slice xs i k = take (k - i) obj"
proof -
  from assms(1) have "obj = take (length obj) (drop i xs)"
    by (simp add: occurs_at_def)
  then have "take (k - i) obj = take (k - i) (take (length obj) (drop i xs))"
    by simp
  also have "\<dots> = take (k - i) (drop i xs)"
    using assms(2) by (simp add: min_def)
  finally show ?thesis
    by (simp add: slice_def)
qed

lemma candidate_of_balanced:
  assumes occ: "occurs_at xs obj i" and bal: "balanced_object obj"
  shows "candidate xs i = Some obj"
proof -
  let ?j = "i + length obj"
  from bal have len: "2 \<le> length obj" by (rule balanced_object_length)
  from occ have jl: "?j \<le> length xs" by (simp add: occurs_at_def)
  with len have il: "i < length xs" by simp
  have whole: "slice xs i ?j = obj"
    using slice_of_occurrence [OF occ, of ?j] by simp
  from len have "0 < length obj" by arith
  then have "xs ! (i + 0) = obj ! 0"
    by (rule nth_of_occurrence [OF occ])
  then have "xs ! i = obj ! 0" by simp
  with bal len have open_brace: "xs ! i = lbrace"
    by (cases obj) (auto simp: balanced_object_def)
  have split: "depth (slice xs i k) = 1 + depth (slice xs (i + 1) k)" if "i < k" for k
    using that il open_brace by (simp add: slice_Cons [of i k xs])
  have "brace_scan xs (i + 1) 1 = (?j, 0)"
  proof (rule brace_scan_stops)
    show "i + 1 \<le> ?j" using len by simp
    show "?j \<le> length xs" by (rule jl)
    show "\<forall>k. i + 1 \<le> k \<and> k < ?j \<longrightarrow> 0 < int 1 + depth (slice xs (i + 1) k)"
    proof (intro allI impI)
      fix k assume k: "i + 1 \<le> k \<and> k < ?j"
      then have "k - i \<in> set [1..<length obj]" by auto
      with bal have "0 < depth (take (k - i) obj)"
        by (simp add: balanced_object_def)
      moreover have "slice xs i k = take (k - i) obj"
        using slice_of_occurrence [OF occ, of k] k by simp
      ultimately show "0 < int 1 + depth (slice xs (i + 1) k)"
        using split [of k] k by simp
    qed
    show "int 1 + depth (slice xs (i + 1) ?j) = 0"
      using split [of ?j] len whole bal by (simp add: balanced_object_def)
  qed
  with open_brace whole show ?thesis
    by (simp add: candidate_def)
qed

lemma json_scan_skip:
  assumes "k \<le> i" "\<forall>i'. k \<le> i' \<and> i' < i \<longrightarrow> rejected loads xs i'"
    and "int i < int (length xs) - 1"
  shows "json_scan loads xs k = json_scan loads xs i"
  using assms
proof (induction loads xs k rule: json_scan.induct)
  case (1 loads xs k)
  show ?case
  proof (cases "k = i")
    case True
    then show ?thesis by simp
  next
    case False
    with "1.prems"(1) have lt: "k < i" by simp
    with "1.prems"(3) have inr: "int k < int (length xs) - 1" by simp
    from "1.prems"(2) lt have rej: "rejected loads xs k" by simp
    have rest: "\<forall>i'. k + 1 \<le> i' \<and> i' < i \<longrightarrow> rejected loads xs i'"
      using "1.prems"(2) by simp
    show ?thesis
    proof (cases "candidate xs k")
      case None
      then have "json_scan loads xs k = json_scan loads xs (k + 1)"
        using inr by (simp add: json_scan.simps [of loads xs k])
      also have "\<dots> = json_scan loads xs i"
        using "1.IH"(1) [OF inr None _ rest "1.prems"(3)] lt by simp
      finally show ?thesis .
    next
      case (Some r)
      with rej have no: "loads r = Decode_error" by (simp add: rejected_def)
      then have "json_scan loads xs k = json_scan loads xs (k + 1)"
        using inr Some by (simp add: json_scan.simps [of loads xs k])
      also have "\<dots> = json_scan loads xs i"
        using "1.IH"(2) [OF inr Some no _ rest "1.prems"(3)] lt by simp
      finally show ?thesis .
    qed
  qed
qed

lemma json_scan_hit:
  assumes "int i < int (length xs) - 1" "candidate xs i = Some r" "loads r = Parsed v"
  shows "json_scan loads xs i = Found i v"
  using assms by (simp add: json_scan.simps [of loads xs i])

lemma json_scan_raise:
  assumes "int i < int (length xs) - 1" "candidate xs i = Some r" "loads r = Other_error"
  shows "json_scan loads xs i = Aborted"
  using assms by (simp add: json_scan.simps [of loads xs i])

lemma json_scan_first_parse:
  assumes "first_parse loads xs i v"
  shows "json_scan loads xs 0 = Found i v"
proof -
  from assms have inr: "int i < int (length xs) - 1"
    and rej: "\<forall>i'. 0 \<le> i' \<and> i' < i \<longrightarrow> rejected loads xs i'"
    by (simp_all add: first_parse_def)
  from assms obtain r where r: "candidate xs i = Some r" "loads r = Parsed v"
    by (auto simp: first_parse_def split: option.splits)
  have "json_scan loads xs 0 = json_scan loads xs i"
    by (rule json_scan_skip [OF _ rej inr]) simp
  with json_scan_hit [where loads = loads, OF inr r] show ?thesis by simp
qed

lemma json_scan_first_raise:
  assumes "int i < int (length xs) - 1" "candidate xs i = Some r" "loads r = Other_error"
    and "\<forall>i'. i' < i \<longrightarrow> rejected loads xs i'"
  shows "json_scan loads xs 0 = Aborted"
proof -
  have "json_scan loads xs 0 = json_scan loads xs i"
    by (rule json_scan_skip [OF _ _ assms(1)]) (simp_all add: assms(4))
  with json_scan_raise [where loads = loads, OF assms(1,2,3)] show ?thesis by simp
qed

lemma json_scan_all_rejected:
  assumes "\<forall>i. int i < int (length xs) - 1 \<longrightarrow> rejected loads xs i"
  shows "json_scan loads xs k = Not_found"
  using assms
proof (induction loads xs k rule: json_scan.induct)
  case (1 loads xs k)
  show ?case
  proof (cases "int k < int (length xs) - 1")
    case False
    then show ?thesis by (simp add: json_scan.simps [of loads xs k])
  next
    case True
    with "1.prems" have rej: "rejected loads xs k" by simp
    show ?thesis
    proof (cases "candidate xs k")
      case None
      with True "1.IH"(1) [OF True None "1.prems"] show ?thesis
        by (simp add: json_scan.simps [of loads xs k])
    next
      case (Some r)
      with rej have no: "loads r = Decode_error" by (simp add: rejected_def)
      with True Some "1.IH"(2) [OF True Some no "1.prems"] show ?thesis
        by (simp add: json_scan.simps [of loads xs k])
    qed
  qed
qed

text \<open>The result of \<^verbatim>\<open>read_cpmmodel\<close> on a file that can be read.\<close>

lemma read_cpmmodel_cases:
  assumes "read_bytes e p = Some xs"
  shows "read_cpmmodel e p =
     (case json_scan (json_loads e) xs 0 of
        Found i v \<Rightarrow> finish_extraction e xs p v
      | Not_found \<Rightarrow> finish_extraction e xs p []
      | Aborted \<Rightarrow> empty_dict)"
  using assms by (simp add: read_cpmmodel_def extract_data_def split: scan.splits)

lemma read_cpmmodel_aborted:
  assumes "read_bytes e p = Some xs" "json_scan (json_loads e) xs 0 = Aborted"
  shows "read_cpmmodel e p = empty_dict"
  using assms by (simp add: read_cpmmodel_cases)

lemma finish_extraction_textures:
  "textures (finish_extraction e xs p found) = Some (png_loop xs 0 0 [])"
  by (simp add: finish_extraction_def Let_def)

lemma finish_extraction_model:
  "model (finish_extraction e xs p found) =
     Some (if found = [] then fallback_skeleton else found)"
  by (simp add: finish_extraction_def Let_def)

lemma finish_extraction_not_empty: "\<not> dict_is_empty (finish_extraction e xs p found)"
  by (simp add: dict_is_empty_def finish_extraction_def Let_def)

lemma read_cpmmodel_textures:
  assumes "read_bytes e p = Some xs" "json_scan (json_loads e) xs 0 \<noteq> Aborted"
  shows "textures (read_cpmmodel e p) = Some (png_loop xs 0 0 [])"
  using assms
  by (simp add: read_cpmmodel_cases finish_extraction_textures split: scan.splits)

lemma empty_dict_is_empty: "dict_is_empty empty_dict"
  by (simp add: dict_is_empty_def empty_dict_def)

lemma read_cpmmodel_empty_iff:
  assumes "read_bytes e p = Some xs"
  shows "dict_is_empty (read_cpmmodel e p) \<longleftrightarrow> json_scan (json_loads e) xs 0 = Aborted"
  using assms
  by (simp add: read_cpmmodel_cases finish_extraction_not_empty empty_dict_is_empty
      split: scan.splits)

lemma fallback_skeleton_nonempty: "fallback_skeleton \<noteq> []"
  by (simp add: fallback_skeleton_def)

text \<open>Facts about the region with the long integer.\<close>

lemma length_big_bad: "length big_bad = 4309"
  by (simp add: big_bad_def)

lemma depth_no_brace:
  "lbrace \<notin> set bs \<Longrightarrow> rbrace \<notin> set bs \<Longrightarrow> depth bs = 0"
  by (induction bs) auto

lemma flat_object_balanced:
  assumes "lbrace \<notin> set mid" "rbrace \<notin> set mid"
  shows "balanced_object (lbrace # mid @ [rbrace])"
proof -
  have d: "depth (take n mid) = 0" for n
    using assms by (intro depth_no_brace) (auto dest: in_set_takeD)
  have "depth (mid @ [rbrace]) = - 1"
    using assms by (induction mid) (auto simp: lbrace_def rbrace_def)
  then have whole: "depth (lbrace # mid @ [rbrace]) = 0"
    by simp
  have pre: "0 < depth (take k (lbrace # mid @ [rbrace]))"
    if "k \<in> set [1..<length (lbrace # mid @ [rbrace])]" for k
  proof -
    from that have "1 \<le> k" "k < length mid + 2"
      by (simp_all del: upt_Suc)
    then obtain j where k: "k = Suc j" and j: "j \<le> length mid"
      by (cases k) auto
    then have "take k (lbrace # mid @ [rbrace]) = lbrace # take j mid"
      by simp
    then show ?thesis
      using d [of j] by simp
  qed
  show ?thesis
    unfolding balanced_object_def using whole pre by simp
qed

lemma big_bad_shape:
  "big_bad = lbrace # ([0x22, 0x6E, 0x22, 0x3A] @ replicate 4301 0x31 @ [0x20, 0x21]) @ [rbrace]"
  by (simp add: big_bad_def lbrace_def rbrace_def)

lemma big_bad_balanced: "balanced_object big_bad"
  unfolding big_bad_shape
  by (rule flat_object_balanced) (auto simp: lbrace_def rbrace_def)

lemma occurs_at_prefix: "occurs_at (bs @ rest) bs 0"
  by (simp add: occurs_at_def)

lemma occurs_at_after: "occurs_at (pre @ bs @ rest) bs (length pre)"
  by (simp add: occurs_at_def)

lemma candidate_big_bad: "candidate (big_bad @ rest) 0 = Some big_bad"
  by (rule candidate_of_balanced [OF occurs_at_prefix big_bad_balanced])

lemma sample_loads_big_bad: "sample_loads big_bad = Other_error"
  by (simp add: sample_loads_def length_big_bad)

lemma big_bad_scan_aborted: "json_scan sample_loads (big_bad @ rest) 0 = Aborted"
proof (rule json_scan_raise)
  show "int 0 < int (length (big_bad @ rest)) - 1"
    by (simp add: length_big_bad)
  show "candidate (big_bad @ rest) 0 = Some big_bad"
    by (rule candidate_big_bad)
  show "sample_loads big_bad = Other_error"
    by (rule sample_loads_big_bad)
qed

lemma big_bad_inner_bytes:
  assumes "0 < i" "i < length big_bad"
  shows "(big_bad @ rest) ! i \<noteq> lbrace"
proof -
  let ?tl = "[0x22, 0x6E, 0x22, 0x3A] @ replicate 4301 0x31 @ [0x20, 0x21, 0x7D :: byte]"
  have bb: "big_bad = lbrace # ?tl"
    by (simp add: big_bad_def lbrace_def)
  from assms obtain j where j: "i = Suc j" "j < length ?tl"
    by (cases i) (auto simp: bb)
  have "(big_bad @ rest) ! i = big_bad ! i"
    using assms(2) by (simp add: nth_append)
  also have "\<dots> = ?tl ! j"
    unfolding bb j(1) by (rule nth_Cons_Suc)
  finally have "(big_bad @ rest) ! i = ?tl ! j" .
  moreover from j(2) have "?tl ! j \<in> set ?tl"
    by (rule nth_mem)
  moreover have "lbrace \<notin> set ?tl"
    by (auto simp: lbrace_def)
  ultimately show ?thesis by metis
qed

lemma big_bad_no_value:
  assumes "i < length big_bad"
  shows "no_value sample_loads (big_bad @ rest) i"
proof (cases "i = 0")
  case True
  then show ?thesis
    by (simp add: no_value_def candidate_big_bad sample_loads_big_bad)
next
  case False
  with assms have "(big_bad @ rest) ! i \<noteq> lbrace"
    by (intro big_bad_inner_bytes) simp_all
  then show ?thesis
    by (simp add: no_value_def candidate_def)
qed

lemma first_value_after_big_bad:
  assumes "balanced_object obj" "sample_loads obj = Parsed v"
  shows "first_value sample_loads (big_bad @ obj) 4309 v"
proof -
  have "candidate (big_bad @ obj @ []) (length big_bad) = Some obj"
    by (rule candidate_of_balanced [OF occurs_at_after assms(1)])
  then have c: "candidate (big_bad @ obj) 4309 = Some obj"
    by (simp add: length_big_bad)
  from assms(1) have "2 \<le> length obj" by (rule balanced_object_length)
  then have "int 4309 < int (length (big_bad @ obj)) - 1"
    by (simp add: length_big_bad)
  moreover have "\<forall>i'\<in>set [0..<4309]. no_value sample_loads (big_bad @ obj) i'"
    by (simp add: big_bad_no_value length_big_bad)
  ultimately show ?thesis
    using c assms(2) by (simp add: first_value_def)
qed

lemma sample_json_loads: "json_loads sample_env = sample_loads"
  by (simp add: sample_env_def)


lemma sample_reads_bignum_braces:
  "read_bytes sample_env ''bignum_braces.cpmmodel'' = Some bignum_then_braces"
  by (simp add: sample_env_def sample_files_def)

lemma sample_reads_braces: "read_bytes sample_env ''braces.cpmmodel'' = Some braces"
  by code_simp

lemma sample_reads_noisy: "read_bytes sample_env ''noisy.cpmmodel'' = Some noisy_doc"
  by code_simp


lemma braces_balanced: "balanced_object braces"
  by code_simp


lemma sample_loads_braces: "sample_loads braces = Parsed []"
  by code_simp




text \<open>
  Claim C10, as stated, fails when a region before the empty object makes the parser
  raise an exception the search does not catch: the first region that parses is the
  empty object, yet the Extractor returns the empty dict, with no model at all, whereas
  with no JSON found (a parser that rejects every region) its result is not empty.
\<close>

theorem empty_object_after_error_counterexample:
  "read_bytes sample_env ''bignum_braces.cpmmodel'' = Some bignum_then_braces
   \<and> first_value (json_loads sample_env) bignum_then_braces 4309 []
   \<and> read_cpmmodel sample_env ''bignum_braces.cpmmodel'' = empty_dict
   \<and> model (read_cpmmodel sample_env ''bignum_braces.cpmmodel'') = None
   \<and> \<not> dict_is_empty
         (read_cpmmodel (sample_env\<lparr>json_loads := \<lambda>r. Decode_error\<rparr>) ''bignum_braces.cpmmodel'')"
proof -
  have b2: "first_value (json_loads sample_env) bignum_then_braces 4309 []"
    unfolding sample_json_loads bignum_then_braces_def
    by (rule first_value_after_big_bad [OF braces_balanced sample_loads_braces])
  have "json_scan (json_loads sample_env) bignum_then_braces 0 = Aborted"
    unfolding sample_json_loads bignum_then_braces_def by (rule big_bad_scan_aborted)
  then have b3: "read_cpmmodel sample_env ''bignum_braces.cpmmodel'' = empty_dict"
    by (rule read_cpmmodel_aborted [OF sample_reads_bignum_braces])
  then have b4: "model (read_cpmmodel sample_env ''bignum_braces.cpmmodel'') = None"
    by (simp add: empty_dict_def)
  let ?e = "sample_env\<lparr>json_loads := \<lambda>r. Decode_error\<rparr>"
  have rb: "read_bytes ?e ''bignum_braces.cpmmodel'' = Some bignum_then_braces"
    using sample_reads_bignum_braces by simp
  have "json_scan (json_loads ?e) bignum_then_braces 0 = Not_found"
    by (rule json_scan_all_rejected) (simp add: rejected_def split: option.splits)
  then have "json_scan (json_loads ?e) bignum_then_braces 0 \<noteq> Aborted"
    by simp
  then have b5: "\<not> dict_is_empty (read_cpmmodel ?e ''bignum_braces.cpmmodel'')"
    by (simp only: read_cpmmodel_empty_iff [OF rb] not_False_eq_True)
  show ?thesis
    using sample_reads_bignum_braces b2 b3 b4 b5 by blast
qed

text \<open>
  Claim C10, amended. If, in the buffer of a readable file, the first balanced-brace
  region that parses is the empty object (the parser returns the empty dict) and every
  earlier start position is passed over (not an opening brace, unbalanced, or rejected
  with \<^verbatim>\<open>UnicodeDecodeError\<close> or \<^verbatim>\<open>JSONDecodeError\<close>), the model of the Extractor's
  result is the fallback skeleton with version 1 and empty parts, animations, poses
  and scaling, and the whole result is the one obtained from the same file with a
  parser that rejects every region, for which the search finds no JSON at all.
\<close>

theorem empty_object_is_discarded:
  assumes "read_bytes e path = Some xs"
    and "first_parse (json_loads e) xs i []"
  shows "model (read_cpmmodel e path) =
           Some [(''version'', JInt 1), (''parts'', JArr []), (''animations'', JObj []),
                 (''poses'', JObj []), (''scaling'', JObj [])]
       \<and> read_cpmmodel e path = read_cpmmodel (e\<lparr>json_loads := \<lambda>r. Decode_error\<rparr>) path
       \<and> json_scan (\<lambda>r. Decode_error) xs 0 = Not_found"
proof -
  let ?e = "e\<lparr>json_loads := \<lambda>r. Decode_error\<rparr>"
  from assms(2) have found: "json_scan (json_loads e) xs 0 = Found i []"
    by (rule json_scan_first_parse)
  have none: "json_scan (\<lambda>r. Decode_error) xs 0 = Not_found"
    by (rule json_scan_all_rejected) (simp add: rejected_def split: option.splits)
  have rb: "read_bytes ?e path = Some xs"
    using assms(1) by simp
  have r1: "read_cpmmodel e path = finish_extraction e xs path []"
    using found by (simp add: read_cpmmodel_cases [OF assms(1)])
  have r2: "read_cpmmodel ?e path = finish_extraction ?e xs path []"
    using none by (simp add: read_cpmmodel_cases [OF rb])
  have "finish_extraction ?e xs path [] = finish_extraction e xs path []"
    by (simp add: finish_extraction_def)
  with r1 r2 have same: "read_cpmmodel e path = read_cpmmodel ?e path"
    by simp
  have "model (read_cpmmodel e path) = Some fallback_skeleton"
    by (simp add: r1 finish_extraction_model)
  with same none show ?thesis
    by (simp add: fallback_skeleton_def)
qed

theorem empty_object_is_discarded_witness:
  "read_bytes sample_env ''braces.cpmmodel'' = Some braces
   \<and> first_parse (json_loads sample_env) braces 0 []
   \<and> model (read_cpmmodel sample_env ''braces.cpmmodel'') = Some fallback_skeleton
   \<and> read_cpmmodel sample_env ''braces.cpmmodel''
       = read_cpmmodel (sample_env\<lparr>json_loads := \<lambda>r. Decode_error\<rparr>) ''braces.cpmmodel''"
proof -
  have h: "first_parse (json_loads sample_env) braces 0 []" by code_simp
  show ?thesis
    using sample_reads_braces h empty_object_is_discarded [OF sample_reads_braces h]
    unfolding fallback_skeleton_def by blast
qed

lemma sample_reads_png_bignum:
  "read_bytes sample_env ''png_bignum.cpmmodel'' = Some png_then_bignum"
  by (simp add: sample_env_def sample_files_def)

lemma sample_reads_two: "read_bytes sample_env ''two.cpmmodel'' = Some two_pngs"
  by code_simp

lemma two_pngs_scan: "json_scan (json_loads sample_env) two_pngs 0 = Not_found"
  by code_simp

lemma two_pngs_well_formed: "well_formed_pngs two_pngs [(0, 10), (18, 26)]"
  by code_simp

text \<open>Facts about the buffer with an image and the region with the long integer.\<close>

lemma length_one_png: "length one_png = 16"
  by (simp add: one_png_def)

lemma length_png_then_bignum: "length png_then_bignum = 4325"
  by (simp add: png_then_bignum_def length_big_bad length_one_png)

lemma png_then_bignum_head:
  assumes "i < 16"
  shows "png_then_bignum ! i = one_png ! i"
  using assms by (simp add: png_then_bignum_def nth_append length_one_png)

lemma png_then_bignum_tail:
  assumes "16 \<le> i" "i < length png_then_bignum"
  shows "png_then_bignum ! i \<in> set big_bad"
proof -
  from assms have "i - 16 < length big_bad"
    by (simp add: length_png_then_bignum length_big_bad)
  then have "big_bad ! (i - 16) \<in> set big_bad"
    by (rule nth_mem)
  moreover have "png_then_bignum ! i = big_bad ! (i - 16)"
    using assms(1) by (simp add: png_then_bignum_def nth_append length_one_png)
  ultimately show ?thesis by simp
qed

lemma set_big_bad: "set big_bad = {0x7B, 0x22, 0x6E, 0x3A, 0x31, 0x20, 0x21, 0x7D}"
  by (auto simp: big_bad_def)

lemma png_then_bignum_scan: "json_scan sample_loads png_then_bignum 0 = Aborted"
proof (rule json_scan_first_raise)
  show "int 16 < int (length png_then_bignum) - 1"
    by (simp add: length_png_then_bignum)
  have "occurs_at (one_png @ big_bad @ []) big_bad (length one_png)"
    by (rule occurs_at_after)
  then have "occurs_at png_then_bignum big_bad 16"
    by (simp add: png_then_bignum_def length_one_png)
  then show "candidate png_then_bignum 16 = Some big_bad"
    using big_bad_balanced by (rule candidate_of_balanced)
  show "sample_loads big_bad = Other_error"
    by (rule sample_loads_big_bad)
  show "\<forall>i'. i' < 16 \<longrightarrow> rejected sample_loads png_then_bignum i'"
  proof (intro allI impI)
    fix i' :: nat
    assume lt: "i' < 16"
    then have "one_png ! i' \<in> set one_png"
      by (intro nth_mem) (simp add: length_one_png)
    moreover have "lbrace \<notin> set one_png"
      by (simp add: one_png_def lbrace_def)
    ultimately have "png_then_bignum ! i' \<noteq> lbrace"
      unfolding png_then_bignum_head [OF lt] by metis
    then show "rejected sample_loads png_then_bignum i'"
      by (simp add: rejected_def candidate_def)
  qed
qed

lemma png_then_bignum_signature:
  "bytes_find png_then_bignum png_signature 0 = Some 0
   \<and> bytes_find png_then_bignum png_signature (Suc 0) = None"
proof
  have "occurs_at png_then_bignum png_signature 0"
    by (simp add: occurs_at_def png_then_bignum_def one_png_def png_signature_def)
  then show "bytes_find png_then_bignum png_signature 0 = Some 0"
    by (simp add: bytes_find_Some_iff)
  have "\<not> occurs_at png_then_bignum png_signature q" if q: "Suc 0 \<le> q" for q
  proof
    assume occ: "occurs_at png_then_bignum png_signature q"
    then have inb: "q < length png_then_bignum"
      by (simp add: occurs_at_def length_png_signature)
    have "png_then_bignum ! (q + 0) = png_signature ! 0"
      by (rule nth_of_occurrence [OF occ]) (simp add: length_png_signature)
    then have first: "png_then_bignum ! q = 0x89"
      by (simp add: png_signature_def)
    show False
    proof (cases "q < 16")
      case True
      from q obtain j where j: "q = Suc j" by (cases q) auto
      with True have "j < length (tl one_png)"
        by (simp add: length_one_png)
      then have "tl one_png ! j \<in> set (tl one_png)"
        by (rule nth_mem)
      moreover have "tl one_png ! j = one_png ! q"
        using True j by (simp add: nth_tl length_one_png)
      moreover have "0x89 \<notin> set (tl one_png)"
        by (simp add: one_png_def)
      ultimately have "one_png ! q \<noteq> 0x89"
        by metis
      with first show False
        by (simp add: png_then_bignum_head [OF True])
    next
      case False
      then have "png_then_bignum ! q \<in> set big_bad"
        using inb by (intro png_then_bignum_tail) simp_all
      with first show False
        by (simp add: set_big_bad)
    qed
  qed
  then show "bytes_find png_then_bignum png_signature (Suc 0) = None"
    by (simp add: bytes_find_None_iff)
qed

lemma png_then_bignum_marker: "first_iend png_then_bignum 0 8"
proof -
  have "occurs_at png_then_bignum iend_marker 8"
    by (simp add: occurs_at_def png_then_bignum_def one_png_def iend_marker_def)
  moreover have "\<not> occurs_at png_then_bignum iend_marker q" if q: "q < 8" for q
  proof
    assume occ: "occurs_at png_then_bignum iend_marker q"
    have "png_then_bignum ! (q + 0) = iend_marker ! 0"
      by (rule nth_of_occurrence [OF occ]) (simp add: length_iend_marker)
    then have first: "png_then_bignum ! q = 0x49"
      by (simp add: iend_marker_def)
    from q have lt: "q < 16" by simp
    from q have "q < length (take 8 one_png)"
      by (simp add: length_one_png)
    then have "take 8 one_png ! q \<in> set (take 8 one_png)"
      by (rule nth_mem)
    moreover have "take 8 one_png ! q = one_png ! q"
      using q by simp
    moreover have "0x49 \<notin> set (take 8 one_png)"
      by (simp add: one_png_def)
    ultimately have "one_png ! q \<noteq> 0x49"
      by metis
    with first show False
      by (simp add: png_then_bignum_head [OF lt])
  qed
  ultimately show ?thesis
    by (simp add: first_iend_def)
qed

lemma png_then_bignum_well_formed: "well_formed_pngs png_then_bignum [(0, 8)]"
proof -
  have "sig_positions png_then_bignum 0 = [0]"
    using png_then_bignum_signature
    by (simp add: sig_positions_Some sig_positions_None)
  then show ?thesis
    using png_then_bignum_marker
    by (simp add: well_formed_pngs_def length_png_then_bignum)
qed

text \<open>
  Claim C3, as stated, fails when the buffer also holds a region on which the parser
  raises an exception that the JSON search does not catch: the buffer below holds one
  well-formed image, followed by such a region, and the Extractor returns the empty
  dict, with no texture at all.
\<close>

theorem pngs_lost_counterexample:
  "read_bytes sample_env ''png_bignum.cpmmodel'' = Some png_then_bignum
   \<and> well_formed_pngs png_then_bignum [(0, 8)]
   \<and> read_cpmmodel sample_env ''png_bignum.cpmmodel'' = empty_dict
   \<and> textures (read_cpmmodel sample_env ''png_bignum.cpmmodel'') = None"
proof -
  have "json_scan (json_loads sample_env) png_then_bignum 0 = Aborted"
    unfolding sample_json_loads by (rule png_then_bignum_scan)
  then have r: "read_cpmmodel sample_env ''png_bignum.cpmmodel'' = empty_dict"
    by (rule read_cpmmodel_aborted [OF sample_reads_png_bignum])
  then have "textures (read_cpmmodel sample_env ''png_bignum.cpmmodel'') = None"
    by (simp add: empty_dict_def)
  with r show ?thesis
    using sample_reads_png_bignum png_then_bignum_well_formed by blast
qed

text \<open>
  Claim C3, amended. Let the buffer of a readable file hold \<open>N\<close> well-formed,
  non-overlapping PNG images (the signature occurs exactly at the \<open>N\<close> starts, each
  start is followed by an \<^verbatim>\<open>IEND\<close> marker whose four checksum bytes lie inside the
  buffer, and each image starts after the checksum of the one before; the marker of an
  image is the first \<^verbatim>\<open>IEND\<close> at or after its signature). If the JSON search is not
  ended by an exception other than the two it catches, the Extractor's result holds
  exactly \<open>N\<close> textures, in ascending order of their offsets, the \<open>k\<close>-th named
  \<^verbatim>\<open>texture_k.png\<close> (counting from zero) and spanning from its signature to the end of
  the checksum: it starts with the signature, ends with the marker and four bytes, and
  has length \<open>m + 8 - p\<close>. If the search is ended by such an exception, the Extractor
  returns the empty dict and no texture.
\<close>

theorem well_formed_pngs_recovered:
  assumes "read_bytes e path = Some xs"
    and "well_formed_pngs xs imgs"
  shows "(json_scan (json_loads e) xs 0 \<noteq> Aborted \<longrightarrow>
            textures (read_cpmmodel e path) =
              Some (map (\<lambda>(k, (p, m)). \<lparr>tex_name = Some (texture_name k),
                                         tex_data = Some (slice xs p (m + 8))\<rparr>)
                      (enumerate 0 imgs))
            \<and> length (textures_of (read_cpmmodel e path)) = length imgs)
       \<and> (json_scan (json_loads e) xs 0 = Aborted \<longrightarrow>
            read_cpmmodel e path = empty_dict \<and> textures_of (read_cpmmodel e path) = [])
       \<and> sorted_wrt (<) (map fst imgs)
       \<and> (\<forall>(p, m) \<in> set imgs.
             take 8 (slice xs p (m + 8)) = png_signature
             \<and> length (slice xs p (m + 8)) = m + 8 - p
             \<and> ends_with_checksum (slice xs p (m + 8)))"
proof -
  from assms(2) have sp: "sig_positions xs 0 = map fst imgs"
    and fi: "\<forall>(p, m) \<in> set imgs. first_iend xs p m \<and> m + 8 \<le> length xs"
    by (simp_all add: well_formed_pngs_def list_all_iff)
  have "concat (map (\<lambda>p. case bytes_find xs iend_marker p of None \<Rightarrow> [] | Some m \<Rightarrow> [(p, m)])
          (map fst imgs)) = imgs"
    using fi by (induction imgs) (auto simp: first_iend_iff)
  then have imgs: "png_images xs 0 = imgs"
    by (simp add: png_images_def sp)
  have loop: "png_loop xs 0 0 [] = named_from xs 0 imgs"
    by (simp add: png_loop_char imgs)
  have rng: "take 8 (slice xs p (m + 8)) = png_signature
      \<and> length (slice xs p (m + 8)) = m + 8 - p
      \<and> ends_with_checksum (slice xs p (m + 8))" if "(p, m) \<in> set imgs" for p m
  proof -
    from that fi have f: "first_iend xs p m" and room: "m + 8 \<le> length xs" by auto
    from that imgs have occ: "occurs_at xs png_signature p"
      by (metis png_images_mem)
    from f have pe: "p \<le> m" and ie: "occurs_at xs iend_marker m"
      by (simp_all add: first_iend_def)
    show ?thesis
      using slice_starts_with_signature [OF occ pe] slice_ends_with_checksum [OF ie pe room] room
      by (simp add: length_slice)
  qed
  have srt: "sorted_wrt (<) (map fst imgs)"
    using png_images_sorted [of xs 0] by (simp add: imgs)
  have ok: "textures (read_cpmmodel e path) = Some (named_from xs 0 imgs)"
    if "json_scan (json_loads e) xs 0 \<noteq> Aborted"
    using read_cpmmodel_textures [OF assms(1) that] by (simp add: loop)
  have ab: "read_cpmmodel e path = empty_dict"
    if "json_scan (json_loads e) xs 0 = Aborted"
    using assms(1) that by (rule read_cpmmodel_aborted)
  show ?thesis
    using ok ab rng srt
    by (auto simp: named_from_def textures_of_def empty_dict_def)
qed

theorem well_formed_pngs_recovered_witness:
  "read_bytes sample_env ''two.cpmmodel'' = Some two_pngs
   \<and> well_formed_pngs two_pngs [(0, 10), (18, 26)]
   \<and> json_scan (json_loads sample_env) two_pngs 0 \<noteq> Aborted
   \<and> textures (read_cpmmodel sample_env ''two.cpmmodel'') =
       Some [\<lparr>tex_name = Some ''texture_0.png'', tex_data = Some (slice two_pngs 0 18)\<rparr>,
             \<lparr>tex_name = Some ''texture_1.png'', tex_data = Some (slice two_pngs 18 34)\<rparr>]
   \<and> length (textures_of (read_cpmmodel sample_env ''two.cpmmodel'')) = 2"
proof -
  have na: "json_scan (json_loads sample_env) two_pngs 0 \<noteq> Aborted"
    by (simp add: two_pngs_scan)
  show ?thesis
    using sample_reads_two two_pngs_well_formed na
      well_formed_pngs_recovered [OF sample_reads_two two_pngs_well_formed]
    by (simp add: texture_name_0 texture_name_1)
qed

section \<open>The Packager and the top level\<close>

lemma texture_loop_acc:
  "texture_loop i ts zipf n =
     (zipf @ fst (texture_loop i ts [] 0), n + snd (texture_loop i ts [] 0))"
proof (induction ts arbitrary: i zipf n)
  case Nil
  show ?case by simp
next
  case (Cons t ts)
  let ?nm = "case tex_name t of None \<Rightarrow> texture_name i | Some n \<Rightarrow> n"
  let ?dt = "case tex_data t of None \<Rightarrow> [] | Some d \<Rightarrow> d"
  let ?entry = "(if \<not> startswith ?nm ''textures/'' then ''textures/'' @ ?nm else ?nm, Blob ?dt)"
  show ?case
  proof (cases "?dt = []")
    case True
    then show ?thesis
      using Cons.IH [of "i + 1" zipf n] by (simp add: Let_def)
  next
    case False
    have "texture_loop i (t # ts) zipf n = texture_loop (i + 1) ts (zipf @ [?entry]) (n + 1)"
      using False by (simp add: Let_def)
    also have "\<dots> = ((zipf @ [?entry]) @ fst (texture_loop (i + 1) ts [] 0),
                      (n + 1) + snd (texture_loop (i + 1) ts [] 0))"
      by (rule Cons.IH)
    finally have lhs: "texture_loop i (t # ts) zipf n =
        (zipf @ ?entry # fst (texture_loop (i + 1) ts [] 0),
         Suc (n + snd (texture_loop (i + 1) ts [] 0)))"
      by simp
    have "texture_loop i (t # ts) [] 0 = texture_loop (i + 1) ts [?entry] 1"
      using False by (simp add: Let_def)
    also have "\<dots> = ([?entry] @ fst (texture_loop (i + 1) ts [] 0),
                      1 + snd (texture_loop (i + 1) ts [] 0))"
      by (rule Cons.IH)
    finally have rhs: "texture_loop i (t # ts) [] 0 =
        (?entry # fst (texture_loop (i + 1) ts [] 0),
         Suc (snd (texture_loop (i + 1) ts [] 0)))"
      by simp
    show ?thesis
      unfolding lhs rhs by simp
  qed
qed

lemma texture_loop_all_written:
  assumes "\<forall>t\<in>set ts. \<exists>d. tex_data t = Some d \<and> d \<noteq> []"
  shows "snd (texture_loop i ts zipf n) = n + length ts"
  using assms
proof (induction ts arbitrary: i zipf n)
  case Nil
  show ?case by simp
next
  case (Cons t ts)
  from Cons.prems obtain d where d: "tex_data t = Some d" "d \<noteq> []"
    by auto
  from Cons.prems have rest: "\<forall>t\<in>set ts. \<exists>d. tex_data t = Some d \<and> d \<noteq> []"
    by simp
  show ?case
    using d Cons.IH [OF rest] by (simp add: Let_def)
qed

lemma build_archive_head:
  "\<exists>rest. fst (build_archive md) =
     (''project.json'', Dumps (project_info md)) # (''model.json'', Dumps (packaged_model md)) # rest"
proof -
  let ?ts = "case textures md of None \<Rightarrow> [] | Some ts \<Rightarrow> ts"
  let ?z = "[(''project.json'', Dumps (project_info md)), (''model.json'', Dumps (packaged_model md))]"
  have "texture_loop 0 ?ts ?z 0 =
      (?z @ fst (texture_loop 0 ?ts [] 0), 0 + snd (texture_loop 0 ?ts [] 0))"
    by (rule texture_loop_acc)
  then show ?thesis
    by (simp add: build_archive_def Let_def)
qed

lemma build_archive_no_textures:
  assumes "textures md = Some [] \<or> textures md = None"
  shows "build_archive md =
     ([(''project.json'', Dumps (project_info md)), (''model.json'', Dumps (packaged_model md)),
       (''textures/.keep'', Text []), (''animations/.keep'', Text [])], 0)"
  using assms by (auto simp: build_archive_def)

lemma png_loop_nonempty_data:
  "\<forall>t\<in>set (png_loop xs 0 0 []). \<exists>d. tex_data t = Some d \<and> d \<noteq> []"
proof -
  have "slice xs p (e + 8) \<noteq> []" if "(p, e) \<in> set (png_images xs 0)" for p e
  proof -
    from that have occ: "occurs_at xs png_signature p" and "bytes_find xs iend_marker p = Some e"
      by (simp_all add: png_images_mem)
    then have "p \<le> e" by (simp add: bytes_find_Some_iff)
    with occ have "take 8 (slice xs p (e + 8)) = png_signature"
      by (rule slice_starts_with_signature)
    then show ?thesis
      by (auto simp: png_signature_def)
  qed
  then show ?thesis
    by (auto simp: png_loop_char named_from_def in_set_enumerate_eq) (metis nth_mem)
qed

lemma packaged_model_cases:
  "packaged_model md =
     (case model md of
        None \<Rightarrow> default_model
      | Some m \<Rightarrow>
          (case dict_get m ''parts'' of
             None \<Rightarrow> default_model
           | Some v \<Rightarrow> if truthy v then m else default_model))"
  by (auto simp: packaged_model_def dict_get_def split: option.splits)

lemma packaged_fallback_skeleton:
  "model md = Some fallback_skeleton \<Longrightarrow> packaged_model md = default_model"
  by (simp add: packaged_model_cases dict_get_def fallback_skeleton_def)

lemma png_loop_no_image:
  assumes "no_image xs"
  shows "png_loop xs 0 0 [] = []"
proof (cases "png_images xs 0")
  case Nil
  then show ?thesis
    by (simp add: png_loop_char named_from_def)
next
  case (Cons pm rest)
  obtain p m where pm: "pm = (p, m)"
    by (cases pm)
  with Cons have "(p, m) \<in> set (png_images xs 0)"
    by simp
  then have occ: "occurs_at xs png_signature p"
    and f: "bytes_find xs iend_marker p = Some m"
    by (simp_all add: png_images_mem)
  from f have le: "p \<le> m" and ie: "occurs_at xs iend_marker m"
    by (simp_all add: bytes_find_Some_iff)
  from ie have "m < length xs"
    by (simp add: occurs_at_def length_iend_marker)
  with le occ ie assms have False
    by (auto simp: no_image_def)
  then show ?thesis ..
qed

lemma startswith_textures: "startswith (''textures/'' @ nm) ''textures/''"
  by (simp add: startswith_def)

lemma texture_loop_paths:
  "\<forall>(path, c) \<in> set (fst (texture_loop i ts [] 0)). startswith path ''textures/''"
proof (induction ts arbitrary: i)
  case Nil
  show ?case by simp
next
  case (Cons t ts)
  let ?nm = "case tex_name t of None \<Rightarrow> texture_name i | Some n \<Rightarrow> n"
  let ?dt = "case tex_data t of None \<Rightarrow> [] | Some d \<Rightarrow> d"
  let ?path = "if \<not> startswith ?nm ''textures/'' then ''textures/'' @ ?nm else ?nm"
  have p: "startswith ?path ''textures/''"
    by (cases "startswith ?nm ''textures/''") (simp_all add: startswith_def)
  show ?case
  proof (cases "?dt = []")
    case True
    then show ?thesis
      using Cons.IH [of "i + 1"] by (simp add: Let_def)
  next
    case False
    then have "texture_loop i (t # ts) [] 0 = texture_loop (i + 1) ts [(?path, Blob ?dt)] 1"
      by (simp add: Let_def)
    also have "\<dots> = ([(?path, Blob ?dt)] @ fst (texture_loop (i + 1) ts [] 0),
                      1 + snd (texture_loop (i + 1) ts [] 0))"
      by (rule texture_loop_acc)
    finally have "fst (texture_loop i (t # ts) [] 0) =
        (?path, Blob ?dt) # fst (texture_loop (i + 1) ts [] 0)"
      by simp
    then show ?thesis
      using p Cons.IH [of "i + 1"] by simp
  qed
qed

text \<open>The archive holds exactly one entry \<^verbatim>\<open>model.json\<close>, with the packaged model.\<close>

lemma build_archive_model_json:
  "entries_at (fst (build_archive md)) ''model.json'' = [Dumps (packaged_model md)]"
proof -
  let ?ts = "case textures md of None \<Rightarrow> [] | Some ts \<Rightarrow> ts"
  let ?z = "[(''project.json'', Dumps (project_info md)), (''model.json'', Dumps (packaged_model md))]"
  let ?tx = "fst (texture_loop 0 ?ts [] 0)"
  have tl: "texture_loop 0 ?ts ?z 0 = (?z @ ?tx, 0 + snd (texture_loop 0 ?ts [] 0))"
    by (rule texture_loop_acc)
  have "path \<noteq> ''model.json''" if "(path, c) \<in> set ?tx" for path c
  proof -
    from that texture_loop_paths [of 0 ?ts] have "startswith path ''textures/''"
      by auto
    then show ?thesis
      by (auto simp: startswith_def)
  qed
  then have none: "filter (\<lambda>(p, c). p = ''model.json'') ?tx = []"
    by (auto simp: filter_empty_conv)
  show ?thesis
    by (simp add: entries_at_def build_archive_def tl none Let_def)
qed

text \<open>The conversion of an accepted input, by the result of the Extractor.\<close>

lemma convert_cases:
  assumes "accepted_input e input_path"
  shows "convert_cpmmodel_to_cpmproject e input_path output_path =
     (let out = output_of input_path output_path;
          md = read_cpmmodel e input_path
      in if dict_is_empty md then
           \<lparr>result = Inr False,
            console = [Converting input_path out, Read_failed],
            written = None\<rparr>
         else if zip_ok e out then
           \<lparr>result = Inr True,
            console = [Converting input_path out, Conversion_succeeded, Created_file out,
                       Textures_extracted (length (textures_of md))],
            written = Some (out, fst (build_archive md))\<rparr>
         else
           \<lparr>result = Inr False,
            console = [Converting input_path out, Packaging_error OSError,
                       Conversion_error OSError],
            written = None\<rparr>)"
  using assms
  by (simp add: convert_cpmmodel_to_cpmproject_def accepted_input_def
      create_cpmproject_def output_of_def textures_of_def Let_def)

lemma convert_readable:
  assumes "accepted_input e input_path" "read_bytes e input_path = Some xs"
    and "json_scan (json_loads e) xs 0 \<noteq> Aborted"
  shows "convert_cpmmodel_to_cpmproject e input_path output_path =
     (let out = output_of input_path output_path;
          md = read_cpmmodel e input_path
      in if zip_ok e out then
           \<lparr>result = Inr True,
            console = [Converting input_path out, Conversion_succeeded, Created_file out,
                       Textures_extracted (length (png_loop xs 0 0 []))],
            written = Some (out, fst (build_archive md))\<rparr>
         else
           \<lparr>result = Inr False,
            console = [Converting input_path out, Packaging_error OSError,
                       Conversion_error OSError],
            written = None\<rparr>)"
  using assms(3)
  by (simp add: convert_cases [OF assms(1)] read_cpmmodel_empty_iff [OF assms(2)]
      textures_of_def read_cpmmodel_textures [OF assms(2,3)] Let_def)

lemma convert_aborted:
  assumes "accepted_input e input_path" "read_bytes e input_path = Some xs"
    and "json_scan (json_loads e) xs 0 = Aborted"
  shows "convert_cpmmodel_to_cpmproject e input_path output_path =
     \<lparr>result = Inr False,
      console = [Converting input_path (output_of input_path output_path), Read_failed],
      written = None\<rparr>"
  using assms(3)
  by (simp add: convert_cases [OF assms(1)] read_cpmmodel_empty_iff [OF assms(2)] Let_def)

lemma convert_unreadable:
  assumes "accepted_input e input_path" "read_bytes e input_path = None"
  shows "convert_cpmmodel_to_cpmproject e input_path output_path =
     \<lparr>result = Inr False,
      console = [Converting input_path (output_of input_path output_path), Read_failed],
      written = None\<rparr>"
  using assms(2)
  by (simp add: convert_cases [OF assms(1)] read_cpmmodel_def empty_dict_is_empty Let_def)

lemma build_archive_count:
  "snd (build_archive md) =
     snd (texture_loop 0 (case textures md of None \<Rightarrow> [] | Some ts \<Rightarrow> ts)
       [(''project.json'', Dumps (project_info md)), (''model.json'', Dumps (packaged_model md))]
       0)"
  by (simp add: build_archive_def Let_def split: prod.splits)

lemma read_cpmmodel_all_written:
  "textures_added (read_cpmmodel e p) = length (textures_of (read_cpmmodel e p))"
proof -
  have fin: "textures_added (finish_extraction e xs p found)
      = length (textures_of (finish_extraction e xs p found))" for xs found
  proof -
    have "snd (texture_loop 0 (png_loop xs 0 0 []) z 0) = 0 + length (png_loop xs 0 0 [])" for z
      by (rule texture_loop_all_written [OF png_loop_nonempty_data])
    then show ?thesis
      by (simp add: textures_added_def build_archive_count textures_of_def
          finish_extraction_textures)
  qed
  have emp: "textures_added empty_dict = length (textures_of empty_dict)"
    by (simp add: textures_added_def build_archive_count textures_of_def empty_dict_def)
  show ?thesis
    by (auto simp: read_cpmmodel_def extract_data_def fin emp split: option.splits scan.splits)
qed

lemma sample_accepts_noise: "accepted_input sample_env ''noise.cpmmodel''"
  by code_simp

lemma sample_reads_noise: "read_bytes sample_env ''noise.cpmmodel'' = Some noise"
  by code_simp

lemma sample_accepts_two: "accepted_input sample_env ''two.cpmmodel''"
  by code_simp

lemma sample_accepts_noisy: "accepted_input sample_env ''noisy.cpmmodel''"
  by code_simp

lemma sample_accepts_empty: "accepted_input sample_env ''empty.cpmmodel''"
  by code_simp

lemma sample_reads_empty: "read_bytes sample_env ''empty.cpmmodel'' = Some []"
  by code_simp

lemma sample_reads_bignum: "read_bytes sample_env ''bignum.cpmmodel'' = Some big_bad"
  by (simp add: sample_env_def sample_files_def)

lemma sample_accepts_bignum: "accepted_input sample_env ''bignum.cpmmodel''"
proof -
  have "endswith (lower ''bignum.cpmmodel'') ''.cpmmodel''"
    by code_simp
  then show ?thesis
    by (simp add: accepted_input_def sample_env_def sample_files_def)
qed

lemma noise_all_rejected: "list_all (rejected (json_loads sample_env) noise) [0..<4]"
  by code_simp

lemma noise_scan: "json_scan (json_loads sample_env) noise 0 = Not_found"
  by code_simp

lemma noisy_doc_scan:
  "json_scan (json_loads sample_env) noisy_doc 0 = Found 5 [(''parts'', JArr [JInt 1])]"
  by code_simp

lemma noise_no_image: "no_image noise"
  by code_simp

lemma length_noise: "length noise = 5"
  by (simp add: noise_def)

lemma packaged_entries_model_json:
  assumes "zip_ok e out"
  shows "packaged_entries (create_cpmproject e md out) ''model.json''
     = Some [Dumps (packaged_model md)]"
  using assms
  by (simp add: packaged_entries_def create_cpmproject_def build_archive_model_json)

text \<open>
  Claim C4. When the archive can be written, the Packager writes exactly one entry
  \<^verbatim>\<open>model.json\<close>: the recovered model itself when the model is present and its
  \<^verbatim>\<open>parts\<close> field is present and non-empty, that is, true in Python's sense (for a
  list: not the empty list); otherwise the default document, whose \<^verbatim>\<open>version\<close> is 11,
  whereas the \<^verbatim>\<open>version\<close> of the Extractor's fallback skeleton is 1. The two are not
  unified: a model that is the fallback skeleton is replaced by the default document,
  and so the archive a conversion writes for a buffer in which the search finds no
  JSON holds the default document.
\<close>

theorem packaged_model_rule:
  "(zip_ok e out \<longrightarrow>
      packaged_entries (create_cpmproject e md out) ''model.json'' =
        Some [Dumps (case model md of
                       None \<Rightarrow> default_model
                     | Some m \<Rightarrow>
                         (case dict_get m ''parts'' of
                            None \<Rightarrow> default_model
                          | Some v \<Rightarrow> if truthy v then m else default_model))])
   \<and> (\<forall>m ps. zip_ok e out \<and> model md = Some m \<and> dict_get m ''parts'' = Some (JArr ps) \<longrightarrow>
         packaged_entries (create_cpmproject e md out) ''model.json'' =
           Some [Dumps (if ps = [] then default_model else m)])
   \<and> dict_get default_model ''version'' = Some (JInt 11)
   \<and> dict_get fallback_skeleton ''version'' = Some (JInt 1)
   \<and> (zip_ok e out \<and> model md = Some fallback_skeleton \<longrightarrow>
         packaged_entries (create_cpmproject e md out) ''model.json''
           = Some [Dumps default_model])
   \<and> (accepted_input e input_path \<and> read_bytes e input_path = Some xs
        \<and> json_scan (json_loads e) xs 0 = Not_found
        \<and> zip_ok e (output_of input_path output_path) \<longrightarrow>
         model (read_cpmmodel e input_path) = Some fallback_skeleton
         \<and> written_entries (convert_cpmmodel_to_cpmproject e input_path output_path)
              ''model.json'' = Some [Dumps default_model])"
proof (intro conjI impI allI)
  assume "zip_ok e out"
  then show "packaged_entries (create_cpmproject e md out) ''model.json'' =
        Some [Dumps (case model md of
                       None \<Rightarrow> default_model
                     | Some m \<Rightarrow>
                         (case dict_get m ''parts'' of
                            None \<Rightarrow> default_model
                          | Some v \<Rightarrow> if truthy v then m else default_model))]"
    by (simp add: packaged_entries_model_json packaged_model_cases)
next
  fix m ps
  assume "zip_ok e out \<and> model md = Some m \<and> dict_get m ''parts'' = Some (JArr ps)"
  then show "packaged_entries (create_cpmproject e md out) ''model.json'' =
           Some [Dumps (if ps = [] then default_model else m)]"
    by (simp add: packaged_entries_model_json packaged_model_cases)
next
  show "dict_get default_model ''version'' = Some (JInt 11)"
    by (simp add: dict_get_def default_model_def)
  show "dict_get fallback_skeleton ''version'' = Some (JInt 1)"
    by (simp add: dict_get_def fallback_skeleton_def)
next
  assume "zip_ok e out \<and> model md = Some fallback_skeleton"
  then show "packaged_entries (create_cpmproject e md out) ''model.json''
           = Some [Dumps default_model]"
    by (simp add: packaged_entries_model_json packaged_fallback_skeleton)
next
  assume a: "accepted_input e input_path \<and> read_bytes e input_path = Some xs
        \<and> json_scan (json_loads e) xs 0 = Not_found
        \<and> zip_ok e (output_of input_path output_path)"
  then have rd: "read_cpmmodel e input_path = finish_extraction e xs input_path []"
    by (simp add: read_cpmmodel_cases)
  then show m: "model (read_cpmmodel e input_path) = Some fallback_skeleton"
    by (simp add: finish_extraction_model)
  from a have "json_scan (json_loads e) xs 0 \<noteq> Aborted"
    by simp
  with a have "written (convert_cpmmodel_to_cpmproject e input_path output_path) =
      Some (output_of input_path output_path, fst (build_archive (read_cpmmodel e input_path)))"
    by (simp add: convert_readable Let_def)
  then show "written_entries (convert_cpmmodel_to_cpmproject e input_path output_path)
              ''model.json'' = Some [Dumps default_model]"
    using m by (simp add: written_entries_def build_archive_model_json packaged_fallback_skeleton)
qed

theorem packaged_model_rule_witness:
  "zip_ok sample_env (output_of ''noisy.cpmmodel'' None)
   \<and> model (read_cpmmodel sample_env ''noisy.cpmmodel'') = Some [(''parts'', JArr [JInt 1])]
   \<and> packaged_entries
        (create_cpmproject sample_env (read_cpmmodel sample_env ''noisy.cpmmodel'')
           (output_of ''noisy.cpmmodel'' None)) ''model.json''
       = Some [Dumps [(''parts'', JArr [JInt 1])]]
   \<and> accepted_input sample_env ''noise.cpmmodel''
   \<and> read_bytes sample_env ''noise.cpmmodel'' = Some noise
   \<and> json_scan (json_loads sample_env) noise 0 = Not_found
   \<and> zip_ok sample_env (output_of ''noise.cpmmodel'' None)
   \<and> written_entries (convert_cpmmodel_to_cpmproject sample_env ''noise.cpmmodel'' None)
        ''model.json'' = Some [Dumps default_model]"
proof -
  let ?md = "read_cpmmodel sample_env ''noisy.cpmmodel''"
  have z1: "zip_ok sample_env (output_of ''noisy.cpmmodel'' None)"
    by code_simp
  have z2: "zip_ok sample_env (output_of ''noise.cpmmodel'' None)"
    by code_simp
  have m1: "model ?md = Some [(''parts'', JArr [JInt 1])]"
    using noisy_doc_scan
    by (simp add: read_cpmmodel_cases [OF sample_reads_noisy] finish_extraction_model)
  have g: "dict_get [(''parts'', JArr [JInt 1])] ''parts'' = Some (JArr [JInt 1])"
    by (simp add: dict_get_def)
  have "\<forall>m ps. zip_ok sample_env (output_of ''noisy.cpmmodel'' None) \<and> model ?md = Some m
          \<and> dict_get m ''parts'' = Some (JArr ps) \<longrightarrow>
        packaged_entries (create_cpmproject sample_env ?md (output_of ''noisy.cpmmodel'' None))
          ''model.json'' = Some [Dumps (if ps = [] then default_model else m)]"
    using packaged_model_rule [of sample_env "output_of ''noisy.cpmmodel'' None" ?md]
    by blast
  with z1 m1 g have p1: "packaged_entries
      (create_cpmproject sample_env ?md (output_of ''noisy.cpmmodel'' None)) ''model.json''
        = Some [Dumps [(''parts'', JArr [JInt 1])]]"
    by fastforce
  have "accepted_input sample_env ''noise.cpmmodel''
        \<and> read_bytes sample_env ''noise.cpmmodel'' = Some noise
        \<and> json_scan (json_loads sample_env) noise 0 = Not_found
        \<and> zip_ok sample_env (output_of ''noise.cpmmodel'' None) \<longrightarrow>
      written_entries (convert_cpmmodel_to_cpmproject sample_env ''noise.cpmmodel'' None)
        ''model.json'' = Some [Dumps default_model]"
    using packaged_model_rule [of sample_env _ _ "''noise.cpmmodel''" noise None]
    by blast
  with sample_accepts_noise sample_reads_noise noise_scan z2
  have p2: "written_entries (convert_cpmmodel_to_cpmproject sample_env ''noise.cpmmodel'' None)
      ''model.json'' = Some [Dumps default_model]"
    by blast
  show ?thesis
    using z1 m1 p1 sample_accepts_noise sample_reads_noise noise_scan z2 p2
    by blast
qed

lemma big_bad_no_signature: "sig_positions big_bad 0 = []"
proof -
  have "\<not> occurs_at big_bad png_signature p" for p
  proof
    assume occ: "occurs_at big_bad png_signature p"
    then have "p < length big_bad"
      by (simp add: occurs_at_def length_png_signature)
    then have "big_bad ! p \<in> set big_bad"
      by (rule nth_mem)
    moreover have "big_bad ! (p + 0) = png_signature ! 0"
      by (rule nth_of_occurrence [OF occ]) (simp add: length_png_signature)
    then have "big_bad ! p = 0x89"
      by (simp add: png_signature_def)
    ultimately show False
      by (simp add: set_big_bad)
  qed
  then show ?thesis
    by (simp add: sig_positions_def filter_empty_conv)
qed

text \<open>
  Claim C9, as stated, fails when the buffer holds a region that is no JSON text and on
  which the parser raises an exception the search does not catch. The buffer below is
  such a region and nothing else: no start position yields a parsed value and the
  signature occurs nowhere, yet the extraction fails, the conversion returns \<^verbatim>\<open>False\<close>
  and no archive is written.
\<close>

theorem no_archive_counterexample:
  "accepted_input sample_env ''bignum.cpmmodel''
   \<and> read_bytes sample_env ''bignum.cpmmodel'' = Some big_bad
   \<and> list_all (no_value (json_loads sample_env) big_bad) [0..<length big_bad]
   \<and> sig_positions big_bad 0 = []
   \<and> zip_ok sample_env (output_of ''bignum.cpmmodel'' None)
   \<and> result (convert_cpmmodel_to_cpmproject sample_env ''bignum.cpmmodel'' None) = Inr False
   \<and> written (convert_cpmmodel_to_cpmproject sample_env ''bignum.cpmmodel'' None) = None"
proof -
  have nv: "list_all (no_value (json_loads sample_env) big_bad) [0..<length big_bad]"
    using big_bad_no_value [of _ "[]"] by (simp add: list_all_iff sample_json_loads)
  have z: "zip_ok sample_env (output_of ''bignum.cpmmodel'' None)"
    by code_simp
  have "json_scan (json_loads sample_env) big_bad 0 = Aborted"
    using big_bad_scan_aborted [of "[]"] by (simp add: sample_json_loads)
  then have "convert_cpmmodel_to_cpmproject sample_env ''bignum.cpmmodel'' None =
      \<lparr>result = Inr False,
       console = [Converting ''bignum.cpmmodel'' (output_of ''bignum.cpmmodel'' None),
                  Read_failed],
       written = None\<rparr>"
    by (rule convert_aborted [OF sample_accepts_bignum sample_reads_bignum])
  then show ?thesis
    using sample_accepts_bignum sample_reads_bignum nv big_bad_no_signature z by simp
qed

text \<open>
  Claim C9, amended. Take an accepted input whose buffer holds no image (no occurrence
  of the PNG signature has an \<^verbatim>\<open>IEND\<close> marker at or after it) and whose archive can be
  written. If every start position is passed over (it is not an opening brace, its
  braces do not balance, or its region is rejected with \<^verbatim>\<open>UnicodeDecodeError\<close> or
  \<^verbatim>\<open>JSONDecodeError\<close>), the archive consists of \<^verbatim>\<open>project.json\<close>, of \<^verbatim>\<open>model.json\<close>
  holding exactly the default document (version 11, empty parts, six scaling entries
  \<^verbatim>\<open>[1.0, 1.0, 1.0]\<close>, empty animations and poses, empty root), and of the empty
  placeholders \<^verbatim>\<open>textures/.keep\<close> and \<^verbatim>\<open>animations/.keep\<close>; the placeholder is its
  only entry under \<^verbatim>\<open>textures/\<close>. If instead the parser raises any other exception on
  a region the search reaches, the conversion returns \<^verbatim>\<open>False\<close> and writes no archive.
\<close>

theorem default_archive_for_empty_content:
  assumes "accepted_input e input_path"
    and "read_bytes e input_path = Some xs"
    and "no_image xs"
    and "zip_ok e (output_of input_path output_path)"
  shows "((\<forall>i. int i < int (length xs) - 1 \<longrightarrow> rejected (json_loads e) xs i) \<longrightarrow>
            written (convert_cpmmodel_to_cpmproject e input_path output_path) =
              Some (output_of input_path output_path,
                [(''project.json'', Dumps (project_info (read_cpmmodel e input_path))),
                 (''model.json'', Dumps
                    [(''version'', JInt 11),
                     (''parts'', JArr []),
                     (''scaling'', JObj
                        [(''head'', JArr [JFloat 1, JFloat 1, JFloat 1]),
                         (''body'', JArr [JFloat 1, JFloat 1, JFloat 1]),
                         (''leftArm'', JArr [JFloat 1, JFloat 1, JFloat 1]),
                         (''rightArm'', JArr [JFloat 1, JFloat 1, JFloat 1]),
                         (''leftLeg'', JArr [JFloat 1, JFloat 1, JFloat 1]),
                         (''rightLeg'', JArr [JFloat 1, JFloat 1, JFloat 1])]),
                     (''animations'', JObj []),
                     (''poses'', JObj []),
                     (''root'', JArr [])]),
                 (''textures/.keep'', Text []),
                 (''animations/.keep'', Text [])])
            \<and> map_option (\<lambda>(out, a). texture_entries a)
                 (written (convert_cpmmodel_to_cpmproject e input_path output_path))
                = Some [(''textures/.keep'', Text [])])
       \<and> (json_scan (json_loads e) xs 0 = Aborted \<longrightarrow>
            result (convert_cpmmodel_to_cpmproject e input_path output_path) = Inr False
            \<and> written (convert_cpmmodel_to_cpmproject e input_path output_path) = None)"
proof (intro conjI impI)
  assume rej: "\<forall>i. int i < int (length xs) - 1 \<longrightarrow> rejected (json_loads e) xs i"
  let ?md = "read_cpmmodel e input_path"
  have scan: "json_scan (json_loads e) xs 0 = Not_found"
    using rej by (rule json_scan_all_rejected)
  then have rd: "?md = finish_extraction e xs input_path []"
    by (simp add: read_cpmmodel_cases [OF assms(2)])
  then have "model ?md = Some fallback_skeleton"
    by (simp add: finish_extraction_model)
  then have pm: "packaged_model ?md = default_model"
    by (rule packaged_fallback_skeleton)
  have "textures ?md = Some []"
    using assms(3) by (simp add: rd finish_extraction_textures png_loop_no_image)
  then have ba: "build_archive ?md =
     ([(''project.json'', Dumps (project_info ?md)), (''model.json'', Dumps default_model),
       (''textures/.keep'', Text []), (''animations/.keep'', Text [])], 0)"
    by (simp add: build_archive_no_textures pm)
  from scan have "json_scan (json_loads e) xs 0 \<noteq> Aborted"
    by simp
  then have w: "written (convert_cpmmodel_to_cpmproject e input_path output_path) =
      Some (output_of input_path output_path, fst (build_archive ?md))"
    using assms(4) by (simp add: convert_readable [OF assms(1,2)] Let_def)
  show "written (convert_cpmmodel_to_cpmproject e input_path output_path) =
              Some (output_of input_path output_path,
                [(''project.json'', Dumps (project_info (read_cpmmodel e input_path))),
                 (''model.json'', Dumps
                    [(''version'', JInt 11),
                     (''parts'', JArr []),
                     (''scaling'', JObj
                        [(''head'', JArr [JFloat 1, JFloat 1, JFloat 1]),
                         (''body'', JArr [JFloat 1, JFloat 1, JFloat 1]),
                         (''leftArm'', JArr [JFloat 1, JFloat 1, JFloat 1]),
                         (''rightArm'', JArr [JFloat 1, JFloat 1, JFloat 1]),
                         (''leftLeg'', JArr [JFloat 1, JFloat 1, JFloat 1]),
                         (''rightLeg'', JArr [JFloat 1, JFloat 1, JFloat 1])]),
                     (''animations'', JObj []),
                     (''poses'', JObj []),
                     (''root'', JArr [])]),
                 (''textures/.keep'', Text []),
                 (''animations/.keep'', Text [])])"
    by (simp add: w ba default_model_def)
  show "map_option (\<lambda>(out, a). texture_entries a)
          (written (convert_cpmmodel_to_cpmproject e input_path output_path))
        = Some [(''textures/.keep'', Text [])]"
    by (simp add: w ba texture_entries_def startswith_def)
next
  assume ab: "json_scan (json_loads e) xs 0 = Aborted"
  show "result (convert_cpmmodel_to_cpmproject e input_path output_path) = Inr False"
    by (simp add: convert_aborted [OF assms(1,2) ab])
  show "written (convert_cpmmodel_to_cpmproject e input_path output_path) = None"
    by (simp add: convert_aborted [OF assms(1,2) ab])
qed

theorem default_archive_for_empty_content_witness:
  "accepted_input sample_env ''noise.cpmmodel''
   \<and> read_bytes sample_env ''noise.cpmmodel'' = Some noise
   \<and> no_image noise
   \<and> list_all (rejected (json_loads sample_env) noise) [0..<4]
   \<and> zip_ok sample_env (output_of ''noise.cpmmodel'' None)
   \<and> written (convert_cpmmodel_to_cpmproject sample_env ''noise.cpmmodel'' None) =
       Some (output_of ''noise.cpmmodel'' None,
         [(''project.json'', Dumps (project_info (read_cpmmodel sample_env ''noise.cpmmodel''))),
          (''model.json'', Dumps default_model),
          (''textures/.keep'', Text []),
          (''animations/.keep'', Text [])])
   \<and> map_option (\<lambda>(out, a). texture_entries a)
        (written (convert_cpmmodel_to_cpmproject sample_env ''noise.cpmmodel'' None))
       = Some [(''textures/.keep'', Text [])]"
proof -
  have h3: "\<forall>i. int i < int (length noise) - 1 \<longrightarrow> rejected (json_loads sample_env) noise i"
    using noise_all_rejected by (simp add: list_all_iff length_noise)
  have h5: "zip_ok sample_env (output_of ''noise.cpmmodel'' None)"
    by code_simp
  show ?thesis
    using default_archive_for_empty_content
      [OF sample_accepts_noise sample_reads_noise noise_no_image h5]
      sample_accepts_noise sample_reads_noise noise_no_image noise_all_rejected h3 h5
    unfolding default_model_def by blast
qed

text \<open>
  Claim C8, as stated, fails: \<^verbatim>\<open>create_cpmproject\<close> has no \<^verbatim>\<open>return\<close> statement. For
  the buffer with two images it writes two textures and evaluates to \<^verbatim>\<open>None\<close>, not to
  the count 2.
\<close>

theorem packager_returns_none_counterexample:
  "textures_added (read_cpmmodel sample_env ''two.cpmmodel'') = 2
   \<and> pk_outcome (create_cpmproject sample_env (read_cpmmodel sample_env ''two.cpmmodel'')
        ''two.cpmproject'') = Inr None
   \<and> pk_outcome (create_cpmproject sample_env (read_cpmmodel sample_env ''two.cpmmodel'')
        ''two.cpmproject'') \<noteq> Inr (Some 2)"
  by code_simp

text \<open>
  Claim C8, amended. \<^verbatim>\<open>create_cpmproject\<close> returns no value (a call that succeeds
  evaluates to \<^verbatim>\<open>None\<close>); it counts the textures it writes only to decide on the
  placeholder. The caller reports the number of textures in the extraction result,
  which for every result of \<^verbatim>\<open>read_cpmmodel\<close> is also the number of textures written,
  since every extracted texture has data. When the extraction is not ended by an
  exception, that number is the number of textures the image search records.
\<close>

theorem reported_texture_count:
  assumes "accepted_input e input_path"
    and "read_bytes e input_path = Some xs"
    and "zip_ok e (output_of input_path output_path)"
  shows "pk_outcome (create_cpmproject e (read_cpmmodel e input_path)
           (output_of input_path output_path)) = Inr None
       \<and> textures_added (read_cpmmodel e input_path)
           = length (textures_of (read_cpmmodel e input_path))
       \<and> (json_scan (json_loads e) xs 0 \<noteq> Aborted \<longrightarrow>
            textures (read_cpmmodel e input_path) = Some (png_loop xs 0 0 [])
            \<and> last (console (convert_cpmmodel_to_cpmproject e input_path output_path))
                = Textures_extracted (length (png_loop xs 0 0 []))
            \<and> textures_added (read_cpmmodel e input_path) = length (png_loop xs 0 0 []))"
proof (intro conjI impI)
  show "pk_outcome (create_cpmproject e (read_cpmmodel e input_path)
           (output_of input_path output_path)) = Inr None"
    using assms(3) by (simp add: create_cpmproject_def)
  show all: "textures_added (read_cpmmodel e input_path)
           = length (textures_of (read_cpmmodel e input_path))"
    by (rule read_cpmmodel_all_written)
  assume na: "json_scan (json_loads e) xs 0 \<noteq> Aborted"
  show tx: "textures (read_cpmmodel e input_path) = Some (png_loop xs 0 0 [])"
    using assms(2) na by (rule read_cpmmodel_textures)
  show "last (console (convert_cpmmodel_to_cpmproject e input_path output_path))
      = Textures_extracted (length (png_loop xs 0 0 []))"
    using assms(3) by (simp add: convert_readable [OF assms(1,2) na] Let_def)
  show "textures_added (read_cpmmodel e input_path) = length (png_loop xs 0 0 [])"
    using all tx by (simp add: textures_of_def)
qed

theorem reported_texture_count_witness:
  "accepted_input sample_env ''two.cpmmodel''
   \<and> read_bytes sample_env ''two.cpmmodel'' = Some two_pngs
   \<and> zip_ok sample_env (output_of ''two.cpmmodel'' None)
   \<and> json_scan (json_loads sample_env) two_pngs 0 \<noteq> Aborted
   \<and> pk_outcome (create_cpmproject sample_env (read_cpmmodel sample_env ''two.cpmmodel'')
        (output_of ''two.cpmmodel'' None)) = Inr None
   \<and> last (console (convert_cpmmodel_to_cpmproject sample_env ''two.cpmmodel'' None))
       = Textures_extracted (length (png_loop two_pngs 0 0 []))
   \<and> textures_added (read_cpmmodel sample_env ''two.cpmmodel'') = length (png_loop two_pngs 0 0 [])"
proof -
  have h: "zip_ok sample_env (output_of ''two.cpmmodel'' None)"
    by code_simp
  have na: "json_scan (json_loads sample_env) two_pngs 0 \<noteq> Aborted"
    by (simp add: two_pngs_scan)
  show ?thesis
    using reported_texture_count [OF sample_accepts_two sample_reads_two h]
      sample_accepts_two sample_reads_two h na
    by simp
qed

text \<open>
  Claim C1, as stated, fails: for an existing \<^verbatim>\<open>.cpmmodel\<close> file of zero length the
  Extractor returns a result with the fallback skeleton, which is not the empty dict,
  so the conversion goes on to write the archive and returns \<^verbatim>\<open>True\<close>.
\<close>

theorem empty_file_converts_counterexample:
  "read_bytes sample_env ''empty.cpmmodel'' = Some []
   \<and> result (convert_cpmmodel_to_cpmproject sample_env ''empty.cpmmodel'' None) = Inr True"
  by code_simp

text \<open>
  Claim C1, amended. For an accepted input file whose content is a zero-length buffer,
  the conversion does not raise; it returns \<^verbatim>\<open>True\<close> when the archive can be written
  (the archive then holds \<^verbatim>\<open>project.json\<close>, the default document as \<^verbatim>\<open>model.json\<close> and
  the two placeholders) and \<^verbatim>\<open>False\<close> only when writing the archive fails.
\<close>

theorem empty_file_conversion:
  assumes "accepted_input e input_path"
    and "read_bytes e input_path = Some []"
  shows "result (convert_cpmmodel_to_cpmproject e input_path output_path)
           = Inr (zip_ok e (output_of input_path output_path))
       \<and> (zip_ok e (output_of input_path output_path) \<longrightarrow>
            written (convert_cpmmodel_to_cpmproject e input_path output_path) =
              Some (output_of input_path output_path,
                [(''project.json'', Dumps (project_info (read_cpmmodel e input_path))),
                 (''model.json'', Dumps default_model),
                 (''textures/.keep'', Text []),
                 (''animations/.keep'', Text [])]))"
proof -
  let ?md = "read_cpmmodel e input_path"
  have scan: "json_scan (json_loads e) [] 0 = Not_found"
    by (simp add: json_scan.simps [of "json_loads e" "[]" 0])
  then have rd: "?md = finish_extraction e [] input_path []"
    by (simp add: read_cpmmodel_cases [OF assms(2)])
  then have "model ?md = Some fallback_skeleton"
    by (simp add: finish_extraction_model)
  then have pm: "packaged_model ?md = default_model"
    by (rule packaged_fallback_skeleton)
  have "png_loop [] 0 0 [] = []"
    by (rule png_loop_no_image) (simp add: no_image_def)
  then have "textures ?md = Some []"
    by (simp add: rd finish_extraction_textures)
  then have "build_archive ?md =
     ([(''project.json'', Dumps (project_info ?md)), (''model.json'', Dumps default_model),
       (''textures/.keep'', Text []), (''animations/.keep'', Text [])], 0)"
    by (simp add: build_archive_no_textures pm)
  moreover from scan have "json_scan (json_loads e) [] 0 \<noteq> Aborted"
    by simp
  ultimately show ?thesis
    by (simp add: convert_readable [OF assms] Let_def)
qed

theorem empty_file_conversion_witness:
  "accepted_input sample_env ''empty.cpmmodel''
   \<and> read_bytes sample_env ''empty.cpmmodel'' = Some []
   \<and> zip_ok sample_env (output_of ''empty.cpmmodel'' None)
   \<and> result (convert_cpmmodel_to_cpmproject sample_env ''empty.cpmmodel'' None) = Inr True
   \<and> written (convert_cpmmodel_to_cpmproject sample_env ''empty.cpmmodel'' None) =
       Some (output_of ''empty.cpmmodel'' None,
         [(''project.json'', Dumps (project_info (read_cpmmodel sample_env ''empty.cpmmodel''))),
          (''model.json'', Dumps default_model),
          (''textures/.keep'', Text []),
          (''animations/.keep'', Text [])])"
proof -
  have h: "zip_ok sample_env (output_of ''empty.cpmmodel'' None)"
    by code_simp
  show ?thesis
    using empty_file_conversion [OF sample_accepts_empty sample_reads_empty, of None]
      sample_accepts_empty sample_reads_empty h
    by simp
qed




text \<open>
  Claim C7, as stated, fails: when writing the archive fails, \<^verbatim>\<open>create_cpmproject\<close>
  raises the error again, but the handler of the top-level conversion (line 277)
  catches it and returns \<^verbatim>\<open>False\<close>; nothing is raised to the caller.
\<close>

theorem packaging_error_swallowed_counterexample:
  "pk_outcome (create_cpmproject sample_env (read_cpmmodel sample_env ''two.cpmmodel'')
      ''ro/two.cpmproject'') = Inl OSError
   \<and> result (convert_cpmmodel_to_cpmproject sample_env ''two.cpmmodel''
        (Some ''ro/two.cpmproject'')) = Inr False"
  by code_simp

text \<open>
  Claim C7, amended. When the Packager is invoked (the input is accepted and its
  extraction was not ended by an exception) and fails while writing the archive, it
  prints the error and raises it again to the top-level conversion, which prints its
  own failure message and returns \<^verbatim>\<open>False\<close> to its caller; the exception is not raised
  further and no archive is reported as written.
\<close>

theorem packaging_failure_reported:
  assumes "accepted_input e input_path"
    and "read_bytes e input_path = Some xs"
    and "json_scan (json_loads e) xs 0 \<noteq> Aborted"
    and "\<not> zip_ok e (output_of input_path output_path)"
  shows "create_cpmproject e (read_cpmmodel e input_path) (output_of input_path output_path)
           = \<lparr>pk_outcome = Inl OSError, pk_printed = [Packaging_error OSError],
              pk_archive = None\<rparr>
       \<and> convert_cpmmodel_to_cpmproject e input_path output_path
           = \<lparr>result = Inr False,
              console = [Converting input_path (output_of input_path output_path),
                         Packaging_error OSError, Conversion_error OSError],
              written = None\<rparr>"
  using assms(4)
  by (simp add: convert_readable [OF assms(1,2,3)] Let_def create_cpmproject_def)

theorem packaging_failure_reported_witness:
  "accepted_input sample_env ''two.cpmmodel''
   \<and> read_bytes sample_env ''two.cpmmodel'' = Some two_pngs
   \<and> json_scan (json_loads sample_env) two_pngs 0 \<noteq> Aborted
   \<and> \<not> zip_ok sample_env (output_of ''two.cpmmodel'' (Some ''ro/two.cpmproject''))
   \<and> convert_cpmmodel_to_cpmproject sample_env ''two.cpmmodel'' (Some ''ro/two.cpmproject'')
       = \<lparr>result = Inr False,
          console = [Converting ''two.cpmmodel''
                       (output_of ''two.cpmmodel'' (Some ''ro/two.cpmproject'')),
                     Packaging_error OSError, Conversion_error OSError],
          written = None\<rparr>"
proof -
  have h: "\<not> zip_ok sample_env (output_of ''two.cpmmodel'' (Some ''ro/two.cpmproject''))"
    by code_simp
  have na: "json_scan (json_loads sample_env) two_pngs 0 \<noteq> Aborted"
    by (simp add: two_pngs_scan)
  show ?thesis
    using packaging_failure_reported [OF sample_accepts_two sample_reads_two na h]
      sample_accepts_two sample_reads_two na h
    by simp
qed

end
